theory Spec2Isabelle
  imports Complex_Main
begin

section \<open>Zero-thickness repair: data model\<close>

text \<open>
  The development follows \<^verbatim>\<open>zero_thickness_repair.py\<close>. A Python float is
  modelled by the real number it denotes (no NaN, no infinities). Absolute value and
  comparison of floats are exact and are those of the reals; the subtraction of two floats
  rounds its result, and is a parameter of the model (\<open>float_sub\<close> below). A coordinate
  tuple is a list of reals of
  any length, as \<^verbatim>\<open>tuple(float(x) for x in line_stuff[1:])\<close> builds it; the node table
  is a dict from node number to tuple, modelled as a partial map. Every Python exception
  the code can raise is a value of \<open>error\<close>; the three \<^verbatim>\<open>Exception(...)\<close> raised at
  the end of the input carry their message.
\<close>

datatype error =
    Exception string
  | ValueError
  | KeyError int
  | IndexError

type_synonym coords = "real list"

type_synonym node_table = "int \<Rightarrow> coords option"

text \<open>A value a Python function returns to its caller, as far as this module needs one.\<close>

datatype pyval = PyNone | PyInt int

text \<open>
  The built-in operations are not code of the module: \<^verbatim>\<open>int(s)\<close>, \<^verbatim>\<open>float(s)\<close>
  (\<open>None\<close> stands for their \<^verbatim>\<open>ValueError\<close>), the rendering of an int and of a float
  by \<^verbatim>\<open>str.format\<close>, and the subtraction \<^verbatim>\<open>x - y\<close> of two floats, whose result is the
  exact difference rounded to a float. They are parameters of the model, so every theorem
  below holds for whatever they do, under the assumptions it states.
\<close>

record builtins =
  py_int :: "string \<Rightarrow> int option"
  py_float :: "string \<Rightarrow> real option"
  format_int :: "int \<Rightarrow> string"
  format_float :: "real \<Rightarrow> string"
  float_sub :: "real \<Rightarrow> real \<Rightarrow> real"

text \<open>
  The mutable data of \<^verbatim>\<open>adjust_nodes\<close>: the dict it mutates in place, the list of
  overwritten node numbers and the substitution counter.
\<close>

record clusterer_state =
  node_coords_dict :: node_table
  adjusted_nodes :: "int list"
  substitutions :: nat

section \<open>Strings and lines\<close>

text \<open>
  \<^verbatim>\<open>s.startswith(p)\<close>, \<^verbatim>\<open>s.rstrip()\<close> (ASCII whitespace) and \<^verbatim>\<open>s.split(',')\<close>,
  which never returns an empty list.
\<close>

definition startswith :: "string \<Rightarrow> string \<Rightarrow> bool" where
  "startswith s p = (take (length p) s = p)"

definition is_space :: "char \<Rightarrow> bool" where
  "is_space c = (c \<in> {CHR '' '', CHR 0x09, CHR 0x0A, CHR 0x0B, CHR 0x0C, CHR 0x0D})"

definition rstrip :: "string \<Rightarrow> string" where
  "rstrip s = rev (dropWhile is_space (rev s))"

fun split_comma :: "string \<Rightarrow> string list" where
  "split_comma [] = [[]]"
| "split_comma (c # cs) =
     (if c = CHR '','' then [] # split_comma cs
      else (c # hd (split_comma cs)) # tl (split_comma cs))"

text \<open>
  An open file is the list of the lines that successive \<^verbatim>\<open>readline()\<close> calls still
  return: each line ends with its newline, except possibly the last, and none is empty.
  \<^verbatim>\<open>readline()\<close> returning \<^verbatim>\<open>''\<close> is the empty list; \<^verbatim>\<open>tell()\<close> followed by
  \<^verbatim>\<open>seek(last_pos)\<close> puts the line just read back; \<^verbatim>\<open>seek(0)\<close> starts again from
  \<open>file_lines\<close> of the whole content.
\<close>

fun file_lines :: "string \<Rightarrow> string list" where
  "file_lines [] = []"
| "file_lines (c # cs) =
     (if c = CHR 0x0A then [c] # file_lines cs
      else (case file_lines cs of [] \<Rightarrow> [[c]] | l # ls \<Rightarrow> (c # l) # ls))"

section \<open>Node table reader and element group extractor\<close>

text \<open>Lines 56--58: one node record, \<^verbatim>\<open>int\<close> of the first field, \<^verbatim>\<open>float\<close> of the others.\<close>

definition node_record :: "builtins \<Rightarrow> string \<Rightarrow> (int \<times> coords) option" where
  "node_record B line =
     (let line_stuff = split_comma (rstrip line) in
      case py_int B (hd line_stuff) of
        None \<Rightarrow> None
      | Some node_number \<Rightarrow>
          (case those (map (py_float B) (tl line_stuff)) of
             None \<Rightarrow> None
           | Some cs \<Rightarrow> Some (node_number, cs)))"

text \<open>
  Lines 47--58: the loop of \<^verbatim>\<open>read_node_coordinates\<close>. It returns the dict and the
  handle, positioned on the terminator line.
\<close>

fun read_node_loop ::
  "builtins \<Rightarrow> node_table \<Rightarrow> string list \<Rightarrow> error + (node_table \<times> string list)" where
  "read_node_loop B d [] = Inl (Exception ''end of inp file'')"
| "read_node_loop B d (line # rest) =
     (if startswith line ''*'' then Inr (d, line # rest)
      else (case node_record B line of
              None \<Rightarrow> Inl ValueError
            | Some (node_number, cs) \<Rightarrow> read_node_loop B (d(node_number \<mapsto> cs)) rest))"

definition read_node_coordinates ::
  "builtins \<Rightarrow> string list \<Rightarrow> error + (node_table \<times> string list)" where
  "read_node_coordinates B inp_file_handle = read_node_loop B Map.empty inp_file_handle"

text \<open>Lines 83--85: one element record; the element's own number is dropped.\<close>

definition element_record :: "builtins \<Rightarrow> string \<Rightarrow> int list option" where
  "element_record B line =
     (let line_parts = split_comma (rstrip line) in those (map (py_int B) (tl line_parts)))"

text \<open>Lines 74--85: the loop of \<^verbatim>\<open>identify_relevant_nodes\<close>.\<close>

fun identify_loop ::
  "builtins \<Rightarrow> int list list \<Rightarrow> string list \<Rightarrow> error + (int list list \<times> string list)" where
  "identify_loop B relevant_node_groups [] = Inl (Exception ''end of .inp file reached'')"
| "identify_loop B relevant_node_groups (line # rest) =
     (if startswith line ''*'' then Inr (relevant_node_groups, line # rest)
      else (case element_record B line of
              None \<Rightarrow> Inl ValueError
            | Some g \<Rightarrow> identify_loop B (relevant_node_groups @ [g]) rest))"

definition identify_relevant_nodes ::
  "builtins \<Rightarrow> string list \<Rightarrow> error + (int list list \<times> string list)" where
  "identify_relevant_nodes B inp_file_handle = identify_loop B [] inp_file_handle"

section \<open>The clusterer\<close>

text \<open>
  Lines 114--119: the test of one pair, on the three differences as the float subtraction
  returns them. It is only evaluated on tuples with at least three entries (shorter ones
  raise \<^verbatim>\<open>IndexError\<close> in \<open>compare_later\<close>).
\<close>

definition coincident :: "builtins \<Rightarrow> real \<Rightarrow> coords \<Rightarrow> coords \<Rightarrow> bool" where
  "coincident B tolerance node_1_coords node_2_coords =
     (let x_diff = float_sub B (node_1_coords ! 0) (node_2_coords ! 0);
          y_diff = float_sub B (node_1_coords ! 1) (node_2_coords ! 1);
          z_diff = float_sub B (node_1_coords ! 2) (node_2_coords ! 2)
      in \<bar>x_diff\<bar> < tolerance \<and> \<bar>y_diff\<bar> < tolerance \<and> \<bar>z_diff\<bar> < tolerance)"

text \<open>
  Lines 112--123: the inner loop over \<^verbatim>\<open>node_group[i + 1:]\<close>. The coordinates of
  node 1 were read once before the loop (\<open>node_1_coords\<close>); the value stored into node 2 is
  looked up again in the dict at the moment of the assignment.
\<close>

fun compare_later ::
  "builtins \<Rightarrow> real \<Rightarrow> int \<Rightarrow> coords \<Rightarrow> int list \<Rightarrow> clusterer_state \<Rightarrow> error + clusterer_state" where
  "compare_later B tolerance node_1_number node_1_coords [] st = Inr st"
| "compare_later B tolerance node_1_number node_1_coords (node_2_number # later) st =
     (case node_coords_dict st node_2_number of
        None \<Rightarrow> Inl (KeyError node_2_number)
      | Some node_2_coords \<Rightarrow>
          if length node_1_coords < 3 \<or> length node_2_coords < 3 then Inl IndexError
          else if coincident B tolerance node_1_coords node_2_coords then
            (case node_coords_dict st node_1_number of
               None \<Rightarrow> Inl (KeyError node_1_number)
             | Some v \<Rightarrow>
                 compare_later B tolerance node_1_number node_1_coords later
                   (st\<lparr>node_coords_dict := (node_coords_dict st)(node_2_number \<mapsto> v),
                       adjusted_nodes := adjusted_nodes st @ [node_2_number],
                       substitutions := Suc (substitutions st)\<rparr>))
          else compare_later B tolerance node_1_number node_1_coords later st)"

text \<open>Lines 110--111: the loop over the positions of one group.\<close>

fun adjust_group :: "builtins \<Rightarrow> real \<Rightarrow> int list \<Rightarrow> clusterer_state \<Rightarrow> error + clusterer_state" where
  "adjust_group B tolerance [] st = Inr st"
| "adjust_group B tolerance (node_1_number # later) st =
     (case node_coords_dict st node_1_number of
        None \<Rightarrow> Inl (KeyError node_1_number)
      | Some node_1_coords \<Rightarrow>
          (case compare_later B tolerance node_1_number node_1_coords later st of
             Inl e \<Rightarrow> Inl e
           | Inr st' \<Rightarrow> adjust_group B tolerance later st'))"

text \<open>Line 109: the loop over the groups.\<close>

fun adjust_groups :: "builtins \<Rightarrow> real \<Rightarrow> int list list \<Rightarrow> clusterer_state \<Rightarrow> error + clusterer_state" where
  "adjust_groups B tolerance [] st = Inr st"
| "adjust_groups B tolerance (node_group # groups) st =
     (case adjust_group B tolerance node_group st of
        Inl e \<Rightarrow> Inl e
      | Inr st' \<Rightarrow> adjust_groups B tolerance groups st')"

text \<open>
  \<^verbatim>\<open>adjust_nodes\<close> returns the dict of the overwritten nodes with their coordinates in the
  final table (lines 124--127). The caller's dict has been mutated in place, so the model
  returns the final state beside it.
\<close>

definition adjust_nodes ::
  "builtins \<Rightarrow> node_table \<Rightarrow> int list list \<Rightarrow> real \<Rightarrow> error + (node_table \<times> clusterer_state)" where
  "adjust_nodes B node_coords relevant_node_groups tolerance =
     (case adjust_groups B tolerance relevant_node_groups
             \<lparr>node_coords_dict = node_coords, adjusted_nodes = [], substitutions = 0\<rparr> of
        Inl e \<Rightarrow> Inl e
      | Inr st \<Rightarrow> Inr (node_coords_dict st |` set (adjusted_nodes st), st))"

section \<open>The rewriter\<close>

text \<open>
  Lines 185--190: the line written for one node record. \<^verbatim>\<open>'{0},{1},{2},{3}\n'.format\<close>
  raises \<^verbatim>\<open>IndexError\<close> on a tuple shorter than three and ignores what comes after the
  third entry.
\<close>

definition new_line :: "builtins \<Rightarrow> node_table \<Rightarrow> string \<Rightarrow> error + string" where
  "new_line B adjusted_node_coords old_line =
     (case py_int B (hd (split_comma old_line)) of
        None \<Rightarrow> Inl ValueError
      | Some node_number \<Rightarrow>
          (case adjusted_node_coords node_number of
             None \<Rightarrow> Inr old_line
           | Some node_coords \<Rightarrow>
               if length node_coords < 3 then Inl IndexError
               else Inr (format_int B node_number @ '','' @ format_float B (node_coords ! 0)
                         @ '','' @ format_float B (node_coords ! 1)
                         @ '','' @ format_float B (node_coords ! 2) @ ''\<newline>'')))"

text \<open>
  Lines 175--191. The fourth argument is the list of the strings written to the new file
  so far; it is returned as it stands when the exception is raised.
\<close>

fun write_new_node_section ::
  "builtins \<Rightarrow> node_table \<Rightarrow> string list \<Rightarrow> string list
     \<Rightarrow> string list \<times> (error + string list)" where
  "write_new_node_section B adjusted_node_coords [] out =
     (out, Inl (Exception ''end of .inp file reached while parsing node section''))"
| "write_new_node_section B adjusted_node_coords (old_line # rest) out =
     (if startswith old_line ''*'' then (out, Inr (old_line # rest))
      else (case new_line B adjusted_node_coords old_line of
              Inl e \<Rightarrow> (out, Inl e)
            | Inr l \<Rightarrow> write_new_node_section B adjusted_node_coords rest (out @ [l])))"

lemma write_new_node_section_length:
  "write_new_node_section B adj h out = (out', Inr h') \<Longrightarrow> length h' \<le> length h"
  by (induction B adj h out rule: write_new_node_section.induct)
     (auto split: if_splits sum.splits)

text \<open>Lines 146--157.\<close>

function write_new_inp_file ::
  "builtins \<Rightarrow> node_table \<Rightarrow> string list \<Rightarrow> string list \<Rightarrow> string list \<times> error option" where
  "write_new_inp_file B adjusted_node_coords [] out = (out, None)"
| "write_new_inp_file B adjusted_node_coords (old_line # h) out =
     (if startswith old_line ''*Node\<newline>'' then
        (case write_new_node_section B adjusted_node_coords h (out @ [old_line]) of
           (out', Inl e) \<Rightarrow> (out', Some e)
         | (out', Inr h') \<Rightarrow> write_new_inp_file B adjusted_node_coords h' out')
      else write_new_inp_file B adjusted_node_coords h (out @ [old_line]))"
  by pat_completeness auto
termination
  by (relation "measure (\<lambda>(B, adj, h, out). length h)")
     (auto dest: write_new_node_section_length [OF sym])

section \<open>Parsing the old file and the repair operation\<close>

lemma read_node_loop_length:
  "read_node_loop B d h = Inr (d', h') \<Longrightarrow> length h' \<le> length h"
  by (induction B d h rule: read_node_loop.induct) (fastforce split: if_splits option.splits)+

lemma identify_loop_length:
  "identify_loop B gs h = Inr (gs', h') \<Longrightarrow> length h' \<le> length h"
  by (induction B gs h rule: identify_loop.induct) (fastforce split: if_splits option.splits)+

text \<open>
  Lines 212--219: the first pass of \<^verbatim>\<open>parse_old_inp_file\<close>, which extends the list of
  groups at every header that starts with the element keyword.
\<close>

function collect_groups ::
  "builtins \<Rightarrow> string \<Rightarrow> int list list \<Rightarrow> string list \<Rightarrow> error + int list list" where
  "collect_groups B inp_el_key relevant_node_groups [] = Inr relevant_node_groups"
| "collect_groups B inp_el_key relevant_node_groups (line # h) =
     (if startswith line inp_el_key then
        (case identify_relevant_nodes B h of
           Inl e \<Rightarrow> Inl e
         | Inr (gs, h') \<Rightarrow> collect_groups B inp_el_key (relevant_node_groups @ gs) h')
      else collect_groups B inp_el_key relevant_node_groups h)"
  by pat_completeness auto
termination
  by (relation "measure (\<lambda>(B, k, gs, h). length h)")
     (auto simp add: identify_relevant_nodes_def dest: identify_loop_length)

text \<open>
  Lines 222--229: the second pass. At every \<^verbatim>\<open>*Node\<close> header the dict is assigned
  the result of \<^verbatim>\<open>read_node_coordinates\<close>, and the loop goes on.
\<close>

function collect_nodes ::
  "builtins \<Rightarrow> node_table \<Rightarrow> string list \<Rightarrow> error + node_table" where
  "collect_nodes B node_coords [] = Inr node_coords"
| "collect_nodes B node_coords (line # h) =
     (if startswith line ''*Node\<newline>'' then
        (case read_node_coordinates B h of
           Inl e \<Rightarrow> Inl e
         | Inr (d, h') \<Rightarrow> collect_nodes B d h')
      else collect_nodes B node_coords h)"
  by pat_completeness auto
termination
  by (relation "measure (\<lambda>(B, d, h). length h)")
     (auto simp add: read_node_coordinates_def dest: read_node_loop_length)

text \<open>Lines 210--230; \<^verbatim>\<open>seek(0)\<close> between the passes is the second use of the whole list.\<close>

definition parse_old_inp_file ::
  "builtins \<Rightarrow> string \<Rightarrow> string list \<Rightarrow> error + (node_table \<times> int list list)" where
  "parse_old_inp_file B inp_el_key old_inp_file =
     (case collect_groups B inp_el_key [] old_inp_file of
        Inl e \<Rightarrow> Inl e
      | Inr relevant_node_groups \<Rightarrow>
          (case collect_nodes B Map.empty old_inp_file of
             Inl e \<Rightarrow> Inl e
           | Inr node_coords \<Rightarrow> Inr (node_coords, relevant_node_groups)))"

text \<open>Lines 263--269: the keyword for the element headers.\<close>

definition element_key :: "string \<Rightarrow> error + string" where
  "element_key element_types =
     (if element_types = ''cohesives'' then Inr ''*Element, type=COH3D''
      else if element_types = ''all'' then Inr ''*Element, type=''
      else Inl ValueError)"

text \<open>
  Lines 262--291, without the logger. The arguments are the content of the old file (which
  is taken to exist and to be readable), the keyword and the tolerance. The result is what
  the call returns or raises, and the new file: \<open>None\<close> when it was never opened, else the
  text written to it (\<^verbatim>\<open>open(new_inp_file_path, 'w')\<close> comes after parsing and
  clustering). The function ends with a bare \<^verbatim>\<open>return\<close>.
\<close>

definition coord_snap ::
  "builtins \<Rightarrow> string \<Rightarrow> string \<Rightarrow> real \<Rightarrow> (error + pyval) \<times> string option" where
  "coord_snap B old_inp_file element_types tolerance =
     (case element_key element_types of
        Inl e \<Rightarrow> (Inl e, None)
      | Inr inp_el_key \<Rightarrow>
          (case parse_old_inp_file B inp_el_key (file_lines old_inp_file) of
             Inl e \<Rightarrow> (Inl e, None)
           | Inr (node_coords, relevant_node_groups) \<Rightarrow>
               (case adjust_nodes B node_coords relevant_node_groups tolerance of
                  Inl e \<Rightarrow> (Inl e, None)
                | Inr (adjusted_node_coords, st) \<Rightarrow>
                    (case write_new_inp_file B adjusted_node_coords (file_lines old_inp_file) [] of
                       (out, Some e) \<Rightarrow> (Inl e, Some (concat out))
                     | (out, None) \<Rightarrow> (Inr PyNone, Some (concat out))))))"

section \<open>Plain decimal conversions for the examples\<close>

text \<open>
  The closed examples below need concrete conversions. These read and write plain decimal
  numerals only: on a string of digits they agree with Python's \<^verbatim>\<open>int\<close> and
  \<^verbatim>\<open>float\<close>, on digits, a point and digits with \<^verbatim>\<open>float\<close>, and they reject
  strings with a letter as Python does; a non-negative integral float is written as Python
  writes it (\<^verbatim>\<open>3.0\<close>). The subtraction is the exact one: the subtraction of floats is
  exact when one of the two is zero, when they are equal, and on small integers. The
  examples use no other strings, values and differences.
\<close>

definition digit_of :: "char \<Rightarrow> nat option" where
  "digit_of c =
     (let i = length (takeWhile (\<lambda>d. d \<noteq> c) ''0123456789'')
      in if i < 10 then Some i else None)"

fun decimal_acc :: "nat \<Rightarrow> string \<Rightarrow> nat option" where
  "decimal_acc n [] = Some n"
| "decimal_acc n (c # cs) =
     (case digit_of c of None \<Rightarrow> None | Some d \<Rightarrow> decimal_acc (10 * n + d) cs)"

definition decimal :: "string \<Rightarrow> nat option" where
  "decimal s = (if s = [] then None else decimal_acc 0 s)"

definition plain_int :: "string \<Rightarrow> int option" where
  "plain_int s = map_option int (decimal s)"

definition plain_float :: "string \<Rightarrow> real option" where
  "plain_float s =
     (let ip = takeWhile (\<lambda>c. c \<noteq> CHR ''.'') s; r = dropWhile (\<lambda>c. c \<noteq> CHR ''.'') s in
      if r = [] then map_option real (decimal ip)
      else (case decimal ip of
              None \<Rightarrow> None
            | Some i \<Rightarrow>
                (case decimal (tl r) of
                   None \<Rightarrow> None
                 | Some f \<Rightarrow> Some (real i + real f / 10 ^ length (tl r)))))"

fun show_nat :: "nat \<Rightarrow> string" where
  "show_nat n =
     (if n < 10 then [''0123456789'' ! n]
      else show_nat (n div 10) @ [''0123456789'' ! (n mod 10)])"

definition plain_format_int :: "int \<Rightarrow> string" where
  "plain_format_int i = (if i < 0 then CHR ''-'' # show_nat (nat (- i)) else show_nat (nat i))"

definition plain_format_float :: "real \<Rightarrow> string" where
  "plain_format_float x =
     (if 0 \<le> x \<and> x = of_int \<lfloor>x\<rfloor> then show_nat (nat \<lfloor>x\<rfloor>) @ ''.0'' else ''?'')"

definition plain_builtins :: builtins where
  "plain_builtins =
     \<lparr>py_int = plain_int, py_float = plain_float,
      format_int = plain_format_int, format_float = plain_format_float,
      float_sub = (\<lambda>a b. a - b)\<rparr>"

section \<open>Vocabulary of the properties\<close>

text \<open>
  What the theorems assume of the subtraction of floats, where they need it: it is the exact
  difference rounded to nearest, so that the error is at most the fraction \<open>2^-53\<close> of the
  exact difference (in particular \<^verbatim>\<open>x - x\<close> is zero), and swapping the operands changes
  the sign of the result. This is subtraction in IEEE double precision as long as it does
  not overflow.
\<close>

definition rounded_sub :: "builtins \<Rightarrow> bool" where
  "rounded_sub B =
     (\<forall>a b. float_sub B b a = - float_sub B a b
          \<and> \<bar>float_sub B a b - (a - b)\<bar> \<le> \<bar>a - b\<bar> / 2 ^ 53)"

text \<open>A node is in the table with at least the three coordinates the clusterer reads.\<close>

definition has_three_coords :: "node_table \<Rightarrow> int \<Rightarrow> bool" where
  "has_three_coords T n = (case T n of None \<Rightarrow> False | Some c \<Rightarrow> 3 \<le> length c)"

text \<open>
  A chain of nodes \<open>n0, n1, n2, ...\<close> met two by two: the groups \<open>[n0, n1]\<close>, \<open>[n1, n2]\<close>, ...
  in this order, so that only neighbours of the chain are ever compared.
\<close>

fun chain_groups :: "int list \<Rightarrow> int list list" where
  "chain_groups (a # b # ns) = [a, b] # chain_groups (b # ns)"
| "chain_groups ns = []"

text \<open>
  Every link of the chain is coincident when its group is processed: the pair \<open>(a, b)\<close> is
  tested on the table as it stands then, in which the earlier links have already been
  snapped.
\<close>

fun links_coincident :: "builtins \<Rightarrow> real \<Rightarrow> node_table \<Rightarrow> int list \<Rightarrow> bool" where
  "links_coincident B tol T (a # b # ns) =
     (case T a of
        None \<Rightarrow> False
      | Some ca \<Rightarrow>
          (case T b of
             None \<Rightarrow> False
           | Some cb \<Rightarrow>
               3 \<le> length ca \<and> 3 \<le> length cb \<and> coincident B tol ca cb
               \<and> links_coincident B tol (T(b \<mapsto> ca)) (b # ns)))"
| "links_coincident B tol T ns = True"

text \<open>
  Which lines of a file are node records: the lines after a \<^verbatim>\<open>*Node\<close> header up to the
  next line that starts with \<^verbatim>\<open>*\<close>. The flag says whether the lines at hand follow such
  a header; a whole file starts with \<open>False\<close>.
\<close>

fun node_section_lines :: "bool \<Rightarrow> string list \<Rightarrow> bool list" where
  "node_section_lines inside [] = []"
| "node_section_lines inside (l # ls) =
     (if startswith l ''*'' then False # node_section_lines (startswith l ''*Node\<newline>'') ls
      else inside # node_section_lines inside ls)"

text \<open>Every node record of the file is one that \<^verbatim>\<open>int\<close> and \<^verbatim>\<open>float\<close> accept.\<close>

fun node_records_parse :: "builtins \<Rightarrow> bool \<Rightarrow> string list \<Rightarrow> bool" where
  "node_records_parse B inside [] = True"
| "node_records_parse B inside (l # ls) =
     (if startswith l ''*'' then node_records_parse B (startswith l ''*Node\<newline>'') ls
      else (inside \<longrightarrow> node_record B l \<noteq> None) \<and> node_records_parse B inside ls)"

text \<open>Auxiliary notions of the proofs.\<close>

definition snap :: "clusterer_state \<Rightarrow> int \<Rightarrow> coords \<Rightarrow> clusterer_state" where
  "snap st n2 v = st\<lparr>node_coords_dict := (node_coords_dict st)(n2 \<mapsto> v),
                     adjusted_nodes := adjusted_nodes st @ [n2],
                     substitutions := Suc (substitutions st)\<rparr>"

definition settled :: "builtins \<Rightarrow> real \<Rightarrow> node_table \<Rightarrow> int list \<Rightarrow> bool" where
  "settled B tol T g =
     (\<forall>n\<in>set g. \<forall>m\<in>set g. \<forall>c d. T n = Some c \<longrightarrow> T m = Some d \<longrightarrow> coincident B tol c d \<longrightarrow> c = d)"

definition group_ok :: "node_table \<Rightarrow> int list \<Rightarrow> bool" where
  "group_ok T g =
     ((\<forall>n\<in>set g. T n \<noteq> None) \<and> (2 \<le> length g \<longrightarrow> (\<forall>n\<in>set g. has_three_coords T n)))"

definition rewritten_line :: "builtins \<Rightarrow> node_table \<Rightarrow> bool \<times> string \<Rightarrow> string \<Rightarrow> bool" where
  "rewritten_line B adj fl y = (if fst fl then new_line B adj (snd fl) = Inr y else y = snd fl)"

text \<open>The files of the examples.\<close>

definition example_inp :: string where
  "example_inp =
     ''*Heading\<newline>*Node\<newline>1,0,0,0\<newline>2,1,0,0,7\<newline>3,5,5,5\<newline>*Element, type=COH3D8\<newline>1,1,2,3\<newline>*End\<newline>''"

definition example_two_sections :: string where
  "example_two_sections =
     ''*Node\<newline>1,0,0,0\<newline>*Node\<newline>1,5,5,5\<newline>*End\<newline>''"

definition example_truncated :: string where
  "example_truncated = ''*Heading\<newline>*Node\<newline>1,0,0,0\<newline>2,1,0,0\<newline>''"

definition example_rerun :: string where
  "example_rerun =
     ''*Node\<newline>1,0,0,0\<newline>2,5,0,0\<newline>3,3,0,0\<newline>*Element, type=COH3D8\<newline>1,1,2\<newline>2,3,1\<newline>*End\<newline>''"

section \<open>Lemmas about the clusterer\<close>

text \<open>
  The test of a pair never succeeds for a tolerance that is not positive. With a rounded
  subtraction it is symmetric, and reflexive for a positive tolerance.
\<close>

lemma rounded_sub_plain: "rounded_sub plain_builtins"
  by (simp add: rounded_sub_def plain_builtins_def)

lemma rounded_sub_same: "rounded_sub B \<Longrightarrow> float_sub B a a = 0"
proof -
  assume "rounded_sub B"
  then have "\<bar>float_sub B a a - (a - a)\<bar> \<le> \<bar>a - a\<bar> / 2 ^ 53"
    unfolding rounded_sub_def by blast
  then show ?thesis by simp
qed

lemma rounded_sub_swap: "rounded_sub B \<Longrightarrow> \<bar>float_sub B b a\<bar> = \<bar>float_sub B a b\<bar>"
proof -
  assume "rounded_sub B"
  then have "float_sub B b a = - float_sub B a b"
    unfolding rounded_sub_def by blast
  then show ?thesis by simp
qed

lemma rounded_sub_near:
  assumes "rounded_sub B" and t: "\<bar>a - b\<bar> * (1 + 1 / 2 ^ 53) < tol"
  shows "\<bar>float_sub B a b\<bar> < tol"
proof -
  from assms(1) have e: "\<bar>float_sub B a b - (a - b)\<bar> \<le> \<bar>a - b\<bar> / 2 ^ 53"
    unfolding rounded_sub_def by blast
  have "\<bar>float_sub B a b\<bar> \<le> \<bar>float_sub B a b - (a - b)\<bar> + \<bar>a - b\<bar>" by linarith
  also have "\<dots> \<le> \<bar>a - b\<bar> / 2 ^ 53 + \<bar>a - b\<bar>" using e by linarith
  also have "\<dots> = \<bar>a - b\<bar> * (1 + 1 / 2 ^ 53)" by (simp add: algebra_simps)
  finally show ?thesis using t by linarith
qed

lemma rounded_sub_far:
  assumes "rounded_sub B" and t: "tol \<le> \<bar>a - b\<bar> * (1 - 1 / 2 ^ 53)"
  shows "\<not> \<bar>float_sub B a b\<bar> < tol"
proof -
  from assms(1) have e: "\<bar>float_sub B a b - (a - b)\<bar> \<le> \<bar>a - b\<bar> / 2 ^ 53"
    unfolding rounded_sub_def by blast
  have "\<bar>a - b\<bar> \<le> \<bar>float_sub B a b - (a - b)\<bar> + \<bar>float_sub B a b\<bar>" by linarith
  then have "\<bar>a - b\<bar> - \<bar>a - b\<bar> / 2 ^ 53 \<le> \<bar>float_sub B a b\<bar>" using e by linarith
  moreover have "\<bar>a - b\<bar> - \<bar>a - b\<bar> / 2 ^ 53 = \<bar>a - b\<bar> * (1 - 1 / 2 ^ 53)"
    by (simp add: algebra_simps)
  ultimately show ?thesis using t by linarith
qed

lemma coincident_pos: "coincident B tol a b \<Longrightarrow> 0 < tol"
  by (auto simp add: coincident_def Let_def)

lemma coincident_refl: "rounded_sub B \<Longrightarrow> 0 < tol \<Longrightarrow> coincident B tol a a"
  by (simp add: coincident_def rounded_sub_same)

lemma coincident_sym: "rounded_sub B \<Longrightarrow> coincident B tol a b = coincident B tol b a"
  by (simp add: coincident_def Let_def rounded_sub_swap [of B])

text \<open>
  An invariant rule for each of the three loops: a property of the state that every single
  overwrite preserves holds after the loop. The overwrite stores the current coordinate of
  an earlier node of the group into a later one that is coincident with it.
\<close>

lemma compare_later_invariant:
  assumes "compare_later B tol n1 c1 ns st = Inr st'"
    and "node_coords_dict st n1 = Some c1"
    and "Inv st"
    and step: "\<And>s n2 c2. Inv s \<Longrightarrow> n2 \<in> set ns \<Longrightarrow> node_coords_dict s n1 = Some c1 \<Longrightarrow>
                 node_coords_dict s n2 = Some c2 \<Longrightarrow> 3 \<le> length c1 \<Longrightarrow> 3 \<le> length c2 \<Longrightarrow>
                 coincident B tol c1 c2 \<Longrightarrow> Inv (snap s n2 c1)"
  shows "Inv st' \<and> node_coords_dict st' n1 = Some c1"
  using assms
proof (induction ns arbitrary: st)
  case Nil
  then show ?case by simp
next
  case (Cons n2 later)
  from Cons.prems(1) obtain c2 where c2: "node_coords_dict st n2 = Some c2"
    by (auto split: option.splits)
  from Cons.prems(1) c2 have len: "3 \<le> length c1" "3 \<le> length c2"
    by (auto split: if_splits)
  have step': "\<And>s m c. Inv s \<Longrightarrow> m \<in> set later \<Longrightarrow> node_coords_dict s n1 = Some c1 \<Longrightarrow>
                 node_coords_dict s m = Some c \<Longrightarrow> 3 \<le> length c1 \<Longrightarrow> 3 \<le> length c \<Longrightarrow>
                 coincident B tol c1 c \<Longrightarrow> Inv (snap s m c1)"
    using Cons.prems(4) by simp
  show ?case
  proof (cases "coincident B tol c1 c2")
    case False
    with Cons.prems(1) c2 len have run: "compare_later B tol n1 c1 later st = Inr st'"
      by simp
    show ?thesis
      by (rule Cons.IH [OF run Cons.prems(2) Cons.prems(3) step'])
  next
    case True
    with Cons.prems(1,2) c2 len have run: "compare_later B tol n1 c1 later (snap st n2 c1) = Inr st'"
      by (simp add: snap_def)
    have i1: "Inv (snap st n2 c1)"
      using Cons.prems(4) [OF Cons.prems(3) _ Cons.prems(2) c2 len True] by simp
    have n1: "node_coords_dict (snap st n2 c1) n1 = Some c1"
      using Cons.prems(2) by (simp add: snap_def)
    show ?thesis
      by (rule Cons.IH [OF run n1 i1 step'])
  qed
qed

lemma adjust_group_invariant:
  assumes "adjust_group B tol g st = Inr st'"
    and "Inv st"
    and step: "\<And>s n1 n2 c1 c2. Inv s \<Longrightarrow> n1 \<in> set g \<Longrightarrow> n2 \<in> set g \<Longrightarrow>
                 node_coords_dict s n1 = Some c1 \<Longrightarrow> node_coords_dict s n2 = Some c2 \<Longrightarrow>
                 3 \<le> length c1 \<Longrightarrow> 3 \<le> length c2 \<Longrightarrow>
                 coincident B tol c1 c2 \<Longrightarrow> Inv (snap s n2 c1)"
  shows "Inv st'"
  using assms
proof (induction g arbitrary: st)
  case Nil
  then show ?case by simp
next
  case (Cons n1 later)
  from Cons.prems(1) obtain c1 where c1: "node_coords_dict st n1 = Some c1"
    by (auto split: option.splits)
  from Cons.prems(1) c1 obtain st1 where
    inner: "compare_later B tol n1 c1 later st = Inr st1" and
    rest: "adjust_group B tol later st1 = Inr st'"
    by (auto split: sum.splits)
  have "Inv st1 \<and> node_coords_dict st1 n1 = Some c1"
    by (rule compare_later_invariant [where Inv = Inv, OF inner c1 Cons.prems(2)])
       (rule Cons.prems(3), simp_all)
  then have i1: "Inv st1" ..
  show ?case
    by (rule Cons.IH [OF rest i1]) (rule Cons.prems(3), simp_all)
qed

lemma adjust_groups_invariant:
  assumes "adjust_groups B tol gs st = Inr st'"
    and "Inv st"
    and step: "\<And>s g n1 n2 c1 c2. Inv s \<Longrightarrow> g \<in> set gs \<Longrightarrow> n1 \<in> set g \<Longrightarrow> n2 \<in> set g \<Longrightarrow>
                 node_coords_dict s n1 = Some c1 \<Longrightarrow> node_coords_dict s n2 = Some c2 \<Longrightarrow>
                 3 \<le> length c1 \<Longrightarrow> 3 \<le> length c2 \<Longrightarrow>
                 coincident B tol c1 c2 \<Longrightarrow> Inv (snap s n2 c1)"
  shows "Inv st'"
  using assms
proof (induction gs arbitrary: st)
  case Nil
  then show ?case by simp
next
  case (Cons g gs)
  from Cons.prems(1) obtain st1 where
    first: "adjust_group B tol g st = Inr st1" and
    rest: "adjust_groups B tol gs st1 = Inr st'"
    by (auto split: sum.splits)
  have i1: "Inv st1"
    by (rule adjust_group_invariant [where Inv = Inv, OF first Cons.prems(2)])
       (rule Cons.prems(3) [where g = g], simp_all)
  show ?case
    by (rule Cons.IH [OF rest i1]) (rule Cons.prems(3), simp_all)
qed

text \<open>
  The inner loop in closed form, and when the loops succeed: every node of the group must
  be in the table, and with two nodes or more every tuple needs three entries.
\<close>

lemma compare_later_char:
  assumes rs: "rounded_sub B"
  shows "compare_later B tol n1 c1 ns st = Inr st' \<Longrightarrow> node_coords_dict st n1 = Some c1 \<Longrightarrow>
   node_coords_dict st' =
     (\<lambda>n. if n \<in> set ns \<and> coincident B tol c1 (the (node_coords_dict st n)) then Some c1
          else node_coords_dict st n)"
proof (induction ns arbitrary: st)
  case Nil
  then show ?case by simp
next
  case (Cons n2 later)
  from Cons.prems obtain c2 where c2: "node_coords_dict st n2 = Some c2"
    by (auto split: option.splits)
  show ?case
  proof (cases "coincident B tol c1 c2")
    case False
    with Cons.prems c2 have run: "compare_later B tol n1 c1 later st = Inr st'"
      by (auto split: if_splits)
    from Cons.IH [OF run Cons.prems(2)] False c2 show ?thesis
      by (auto simp add: fun_eq_iff)
  next
    case True
    from Cons.prems c2 True have run: "compare_later B tol n1 c1 later (snap st n2 c1) = Inr st'"
      by (auto simp add: snap_def split: if_splits)
    have n1: "node_coords_dict (snap st n2 c1) n1 = Some c1"
      using Cons.prems(2) by (simp add: snap_def)
    have pos: "0 < tol" using True by (rule coincident_pos)
    have same: "\<And>n. coincident B tol c1 (the (node_coords_dict (snap st n2 c1) n))
                    = coincident B tol c1 (the (node_coords_dict st n))"
      using True c2 pos by (simp add: coincident_refl [OF rs] snap_def)
    from Cons.IH [OF run n1] show ?thesis
      unfolding same using True c2 by (auto simp add: fun_eq_iff snap_def)
  qed
qed

lemma compare_later_checked:
  "compare_later B tol n1 c1 ns st = Inr st' \<Longrightarrow> node_coords_dict st n1 = Some c1 \<Longrightarrow> ns \<noteq> [] \<Longrightarrow>
   3 \<le> length c1 \<and> (\<forall>n\<in>set ns. has_three_coords (node_coords_dict st) n)"
proof (induction ns arbitrary: st)
  case Nil
  then show ?case by simp
next
  case (Cons n2 later)
  from Cons.prems(1) obtain c2 where c2: "node_coords_dict st n2 = Some c2"
    by (auto split: option.splits)
  from Cons.prems(1) c2 have len: "3 \<le> length c1" "3 \<le> length c2"
    by (auto split: if_splits)
  have h2: "has_three_coords (node_coords_dict st) n2"
    using c2 len by (simp add: has_three_coords_def)
  show ?case
  proof (cases "later = []")
    case True
    with len h2 show ?thesis by simp
  next
    case ne: False
    show ?thesis
    proof (cases "coincident B tol c1 c2")
      case False
      with Cons.prems(1) c2 len have run: "compare_later B tol n1 c1 later st = Inr st'"
        by simp
      from Cons.IH [OF run Cons.prems(2) ne] h2 show ?thesis by simp
    next
      case True
      with Cons.prems(1,2) c2 len
      have run: "compare_later B tol n1 c1 later (snap st n2 c1) = Inr st'"
        by (simp add: snap_def)
      have n1: "node_coords_dict (snap st n2 c1) n1 = Some c1"
        using Cons.prems(2) by (simp add: snap_def)
      from Cons.IH [OF run n1 ne]
      have "\<forall>n\<in>set later. has_three_coords (node_coords_dict (snap st n2 c1)) n" by simp
      then have "\<forall>n\<in>set later. has_three_coords (node_coords_dict st) n"
        using h2 by (auto simp add: has_three_coords_def snap_def split: if_splits)
      with len h2 show ?thesis by simp
    qed
  qed
qed

lemma compare_later_succeeds:
  "node_coords_dict st n1 = Some c1 \<Longrightarrow> (ns \<noteq> [] \<longrightarrow> 3 \<le> length c1) \<Longrightarrow>
   \<forall>n\<in>set ns. has_three_coords (node_coords_dict st) n \<Longrightarrow>
   \<exists>st'. compare_later B tol n1 c1 ns st = Inr st'"
proof (induction ns arbitrary: st)
  case Nil
  then show ?case by simp
next
  case (Cons n2 later)
  from Cons.prems(3) obtain c2 where c2: "node_coords_dict st n2 = Some c2" "3 \<le> length c2"
    by (auto simp add: has_three_coords_def split: option.splits)
  from Cons.prems(2) have len1: "3 \<le> length c1" by simp
  show ?case
  proof (cases "coincident B tol c1 c2")
    case False
    have "\<exists>st'. compare_later B tol n1 c1 later st = Inr st'"
      using Cons.prems len1 by (intro Cons.IH) simp_all
    with False c2 len1 show ?thesis by simp
  next
    case True
    have "\<exists>st'. compare_later B tol n1 c1 later (snap st n2 c1) = Inr st'"
      using Cons.prems len1 by (intro Cons.IH) (auto simp add: snap_def has_three_coords_def)
    with True c2 len1 Cons.prems(1) show ?thesis by (simp add: snap_def)
  qed
qed

lemma adjust_group_checked:
  assumes "adjust_group B tol g st = Inr st'"
  shows "group_ok (node_coords_dict st) g"
proof (cases g)
  case Nil
  then show ?thesis by (simp add: group_ok_def)
next
  case (Cons n1 later)
  from assms Cons obtain c1 where c1: "node_coords_dict st n1 = Some c1"
    by (auto split: option.splits)
  from assms Cons c1 obtain st1 where inner: "compare_later B tol n1 c1 later st = Inr st1"
    by (auto split: sum.splits)
  show ?thesis
  proof (cases "later = []")
    case True
    with Cons c1 show ?thesis by (simp add: group_ok_def)
  next
    case False
    from compare_later_checked [OF inner c1 False] c1 Cons show ?thesis
      by (auto simp add: group_ok_def has_three_coords_def split: option.splits)
  qed
qed

lemma group_ok_snap:
  "group_ok (node_coords_dict s) g \<Longrightarrow> 3 \<le> length c1 \<Longrightarrow>
   group_ok (node_coords_dict (snap s n2 c1)) g"
  by (auto simp add: group_ok_def snap_def has_three_coords_def)

lemma adjust_group_succeeds:
  "group_ok (node_coords_dict st) g \<Longrightarrow> \<exists>st'. adjust_group B tol g st = Inr st'"
proof (induction g arbitrary: st)
  case Nil
  then show ?case by simp
next
  case (Cons n1 later)
  from Cons.prems obtain c1 where c1: "node_coords_dict st n1 = Some c1"
    by (auto simp add: group_ok_def)
  have len1: "later \<noteq> [] \<longrightarrow> 3 \<le> length c1"
    using Cons.prems c1 by (cases later) (auto simp add: group_ok_def has_three_coords_def)
  have all3: "\<forall>n\<in>set later. has_three_coords (node_coords_dict st) n"
    using Cons.prems by (cases later) (auto simp add: group_ok_def)
  from compare_later_succeeds [OF c1 len1 all3]
  obtain st1 where inner: "compare_later B tol n1 c1 later st = Inr st1" by blast
  have ok_later: "group_ok (node_coords_dict st) later"
    using Cons.prems by (auto simp add: group_ok_def)
  have "group_ok (node_coords_dict st1) later \<and> node_coords_dict st1 n1 = Some c1"
    by (rule compare_later_invariant
          [where Inv = "\<lambda>s::clusterer_state. group_ok (node_coords_dict s) later", OF inner c1 ok_later])
       (rule group_ok_snap)
  then have "\<exists>st'. adjust_group B tol later st1 = Inr st'"
    by (intro Cons.IH) simp
  with c1 inner show ?case by simp
qed

lemma adjust_group_ok_final:
  assumes "adjust_group B tol g st = Inr st'"
  shows "group_ok (node_coords_dict st') g"
  by (rule adjust_group_invariant
        [where Inv = "\<lambda>s::clusterer_state. group_ok (node_coords_dict s) g", OF assms adjust_group_checked [OF assms]])
     (rule group_ok_snap)

text \<open>
  The table changes only at nodes that are recorded as overwritten; these are keys of the
  table and members of a group.
\<close>

lemma adjust_groups_unchanged_unless_adjusted:
  assumes "adjust_groups B tol gs st = Inr st'"
    and "\<forall>n. n \<notin> set (adjusted_nodes st) \<longrightarrow> node_coords_dict st n = T n"
  shows "\<forall>n. n \<notin> set (adjusted_nodes st') \<longrightarrow> node_coords_dict st' n = T n"
  by (rule adjust_groups_invariant
        [where Inv = "\<lambda>s::clusterer_state. \<forall>n. n \<notin> set (adjusted_nodes s) \<longrightarrow> node_coords_dict s n = T n",
         OF assms])
     (simp add: snap_def)

lemma adjust_groups_adjusted_defined:
  assumes "adjust_groups B tol gs st = Inr st'"
    and "\<forall>n\<in>set (adjusted_nodes st). node_coords_dict st n \<noteq> None"
  shows "\<forall>n\<in>set (adjusted_nodes st'). node_coords_dict st' n \<noteq> None"
  by (rule adjust_groups_invariant
        [where Inv = "\<lambda>s::clusterer_state. \<forall>n\<in>set (adjusted_nodes s). node_coords_dict s n \<noteq> None",
         OF assms])
     (simp add: snap_def)

lemma adjust_groups_adjusted_referenced:
  assumes "adjust_groups B tol gs st = Inr st'"
    and "set (adjusted_nodes st) \<subseteq> N \<union> \<Union> (set ` set gs)"
  shows "set (adjusted_nodes st') \<subseteq> N \<union> \<Union> (set ` set gs)"
  by (rule adjust_groups_invariant
        [where Inv = "\<lambda>s::clusterer_state. set (adjusted_nodes s) \<subseteq> N \<union> \<Union> (set ` set gs)",
         OF assms])
     (auto simp add: snap_def)

lemma adjust_nodes_changed_referenced:
  assumes "adjust_nodes B T gs tol = Inr (adjusted, st)"
  shows "dom adjusted \<subseteq> \<Union> (set ` set gs)"
proof -
  let ?st0 = "\<lparr>node_coords_dict = T, adjusted_nodes = [], substitutions = 0\<rparr>"
  from assms have run: "adjust_groups B tol gs ?st0 = Inr st"
    and adj: "adjusted = node_coords_dict st |` set (adjusted_nodes st)"
    by (auto simp add: adjust_nodes_def split: sum.splits)
  have "set (adjusted_nodes st) \<subseteq> {} \<union> \<Union> (set ` set gs)"
    by (rule adjust_groups_adjusted_referenced [OF run]) simp
  then show ?thesis unfolding adj by (auto simp add: restrict_map_def dom_def split: if_splits)
qed

text \<open>
  After a run over one group no two of its nodes are coincident and different, and a run
  over a group in that condition leaves the table as it is.
\<close>

lemma adjust_group_settled:
  assumes rs: "rounded_sub B"
  shows "adjust_group B tol g st = Inr st' \<Longrightarrow> settled B tol (node_coords_dict st') g"
proof (induction g arbitrary: st)
  case Nil
  then show ?case by (simp add: settled_def)
next
  case (Cons n1 later)
  from Cons.prems obtain c1 where c1: "node_coords_dict st n1 = Some c1"
    by (auto split: option.splits)
  from Cons.prems c1 obtain st1 where
    inner: "compare_later B tol n1 c1 later st = Inr st1" and
    rest: "adjust_group B tol later st1 = Inr st'"
    by (auto split: sum.splits)
  let ?K = "\<lambda>s::clusterer_state. node_coords_dict s n1 = Some c1 \<and>
     (\<forall>n\<in>set later. \<forall>c. node_coords_dict s n = Some c \<longrightarrow> c = c1 \<or> \<not> coincident B tol c1 c)"
  have k1: "?K st1"
    using compare_later_char [OF rs inner c1] c1 by auto
  have k: "?K st'"
  proof (rule adjust_group_invariant [where Inv = ?K, OF rest k1])
    fix s :: clusterer_state and m1 m2 d1 d2
    assume "?K s" "m1 \<in> set later" "m2 \<in> set later"
      "node_coords_dict s m1 = Some d1" "node_coords_dict s m2 = Some d2"
      "coincident B tol d1 d2"
    then show "?K (snap s m2 d1)"
      by (auto simp add: snap_def coincident_sym [OF rs])
  qed
  have ih: "settled B tol (node_coords_dict st') later"
    by (rule Cons.IH [OF rest])
  show ?case
    unfolding settled_def
  proof (intro ballI allI impI)
    fix n m c d
    assume n: "n \<in> set (n1 # later)" and m: "m \<in> set (n1 # later)"
      and c: "node_coords_dict st' n = Some c" and d: "node_coords_dict st' m = Some d"
      and co: "coincident B tol c d"
    show "c = d"
    proof (cases "n \<in> set later")
      case nl: True
      show ?thesis
      proof (cases "m \<in> set later")
        case True
        with nl ih c d co show ?thesis unfolding settled_def by blast
      next
        case False
        with m have "m = n1" by simp
        with k d have "d = c1" by simp
        with k nl c co show ?thesis by (auto simp add: coincident_sym [OF rs])
      qed
    next
      case False
      with n have "n = n1" by simp
      with k c have cc: "c = c1" by simp
      show ?thesis
      proof (cases "m \<in> set later")
        case True
        with k d co cc show ?thesis by auto
      next
        case False
        with m have "m = n1" by simp
        with k d cc show ?thesis by simp
      qed
    qed
  qed
qed

lemma adjust_group_fixpoint:
  assumes "adjust_group B tol g st = Inr st'"
    and "settled B tol (node_coords_dict st) g"
  shows "node_coords_dict st' = node_coords_dict st"
proof (rule adjust_group_invariant
         [where Inv = "\<lambda>s::clusterer_state. node_coords_dict s = node_coords_dict st", OF assms(1)])
  show "node_coords_dict st = node_coords_dict st" by simp
next
  fix s :: clusterer_state and n1 n2 c1 c2
  assume eq: "node_coords_dict s = node_coords_dict st"
    and "n1 \<in> set g" "n2 \<in> set g"
    "node_coords_dict s n1 = Some c1" "node_coords_dict s n2 = Some c2"
    "coincident B tol c1 c2"
  with assms(2) have "c1 = c2" unfolding settled_def by metis
  with \<open>node_coords_dict s n2 = Some c2\<close> eq
  show "node_coords_dict (snap s n2 c1) = node_coords_dict st"
    by (auto simp add: snap_def fun_eq_iff)
qed

text \<open>The run over the groups of a chain.\<close>

lemma adjust_group_link:
  assumes "node_coords_dict st a = Some ca" and "node_coords_dict st b = Some cb"
    and "3 \<le> length ca" and "3 \<le> length cb" and "coincident B tol ca cb"
  shows "adjust_group B tol [a, b] st = Inr (snap st b ca)"
  using assms by (simp add: snap_def)

lemma chain_run:
  "links_coincident B tol (node_coords_dict st) (a # ns) \<Longrightarrow> node_coords_dict st a = Some c0 \<Longrightarrow>
   \<exists>st'. adjust_groups B tol (chain_groups (a # ns)) st = Inr st'
      \<and> (\<forall>n\<in>set (a # ns). node_coords_dict st' n = Some c0)
      \<and> (\<forall>n. n \<notin> set ns \<longrightarrow> node_coords_dict st' n = node_coords_dict st n)
      \<and> adjusted_nodes st' = adjusted_nodes st @ ns
      \<and> substitutions st' = substitutions st + length ns"
proof (induction ns arbitrary: a st)
  case Nil
  then show ?case by simp
next
  case (Cons b ns)
  from Cons.prems obtain cb where cb: "node_coords_dict st b = Some cb"
    and len: "3 \<le> length c0" "3 \<le> length cb" and co: "coincident B tol c0 cb"
    and links: "links_coincident B tol ((node_coords_dict st)(b \<mapsto> c0)) (b # ns)"
    by (auto split: option.splits)
  have first: "adjust_group B tol [a, b] st = Inr (snap st b c0)"
    by (rule adjust_group_link [OF Cons.prems(2) cb len co])
  have l1: "links_coincident B tol (node_coords_dict (snap st b c0)) (b # ns)"
    using links by (simp add: snap_def)
  have b1: "node_coords_dict (snap st b c0) b = Some c0"
    by (simp add: snap_def)
  from Cons.IH [OF l1 b1] obtain st' where
    run: "adjust_groups B tol (chain_groups (b # ns)) (snap st b c0) = Inr st'" and
    all: "\<forall>n\<in>set (b # ns). node_coords_dict st' n = Some c0" and
    frame: "\<forall>n. n \<notin> set ns \<longrightarrow> node_coords_dict st' n = node_coords_dict (snap st b c0) n" and
    adj: "adjusted_nodes st' = adjusted_nodes (snap st b c0) @ ns" and
    sub: "substitutions st' = substitutions (snap st b c0) + length ns"
    by blast
  have total: "adjust_groups B tol (chain_groups (a # b # ns)) st = Inr st'"
    using first run by simp
  have a: "node_coords_dict st' a = Some c0"
  proof (cases "a \<in> set (b # ns)")
    case True
    with all show ?thesis by blast
  next
    case False
    with frame have "node_coords_dict st' a = node_coords_dict (snap st b c0) a" by simp
    with False Cons.prems(2) show ?thesis by (simp add: snap_def)
  qed
  have frame': "\<forall>n. n \<notin> set (b # ns) \<longrightarrow> node_coords_dict st' n = node_coords_dict st n"
    using frame by (simp add: snap_def)
  from total a all frame' adj sub show ?case
    by (simp add: snap_def)
qed

section \<open>Lemmas about the rewriter and the parser\<close>

text \<open>
  The rewriter line by line: what it writes for a line depends on whether the line is a
  node record.
\<close>

lemma startswith_Node_star: "startswith l ''*Node\<newline>'' \<Longrightarrow> startswith l ''*''"
  by (cases l) (auto simp add: startswith_def)

lemma length_node_section_lines: "length (node_section_lines inside h) = length h"
  by (induction h arbitrary: inside) auto

lemma node_section_lines_body:
  "\<forall>l\<in>set body. \<not> startswith l ''*'' \<Longrightarrow>
   node_section_lines inside (body @ h) = replicate (length body) inside @ node_section_lines inside h"
  by (induction body) auto

lemma write_new_node_section_char:
  "write_new_node_section B adj h out = (out', Inr h') \<Longrightarrow>
   \<exists>body ys. h = body @ h' \<and> out' = out @ ys \<and> (\<forall>l\<in>set body. \<not> startswith l ''*'')
      \<and> (\<exists>s t. h' = s # t \<and> startswith s ''*'')
      \<and> list_all2 (\<lambda>l y. new_line B adj l = Inr y) body ys"
proof (induction B adj h out rule: write_new_node_section.induct)
  case (1 B adj out)
  then show ?case by simp
next
  case (2 B adj old_line rest out)
  show ?case
  proof (cases "startswith old_line ''*''")
    case True
    with "2.prems" have "h' = old_line # rest" "out' = out" by auto
    with True show ?thesis by auto
  next
    case False
    with "2.prems" obtain l where l: "new_line B adj old_line = Inr l"
      and run: "write_new_node_section B adj rest (out @ [l]) = (out', Inr h')"
      by (auto split: sum.splits)
    from "2.IH" [OF False l run] obtain body ys where
      b: "rest = body @ h'" "out' = (out @ [l]) @ ys" "\<forall>l\<in>set body. \<not> startswith l ''*''"
         "\<exists>s t. h' = s # t \<and> startswith s ''*''"
         "list_all2 (\<lambda>l y. new_line B adj l = Inr y) body ys"
      by blast
    have "old_line # rest = (old_line # body) @ h'" using b(1) by simp
    moreover have "out' = out @ (l # ys)" using b(2) by simp
    moreover have "\<forall>x\<in>set (old_line # body). \<not> startswith x ''*''" using b(3) False by simp
    moreover have "list_all2 (\<lambda>l y. new_line B adj l = Inr y) (old_line # body) (l # ys)"
      using b(5) l by simp
    ultimately show ?thesis using b(4) by blast
  qed
qed

lemma write_new_inp_file_char:
  "write_new_inp_file B adj h out = (out', None) \<Longrightarrow>
   \<exists>ys. out' = out @ ys \<and> list_all2 (rewritten_line B adj) (zip (node_section_lines False h) h) ys"
proof (induction B adj h out rule: write_new_inp_file.induct)
  case (1 B adj out)
  then show ?case by simp
next
  case (2 B adj old_line h out)
  show ?case
  proof (cases "startswith old_line ''*Node\<newline>''")
    case False
    with "2.prems" have run: "write_new_inp_file B adj h (out @ [old_line]) = (out', None)"
      by simp
    from "2.IH"(2) [OF False run] obtain ys where
      ys: "out' = (out @ [old_line]) @ ys"
          "list_all2 (rewritten_line B adj) (zip (node_section_lines False h) h) ys"
      by blast
    have fl: "node_section_lines False (old_line # h) = False # node_section_lines False h"
      using False by simp
    have "out' = out @ (old_line # ys)" using ys(1) by simp
    moreover have "list_all2 (rewritten_line B adj)
        (zip (node_section_lines False (old_line # h)) (old_line # h)) (old_line # ys)"
      unfolding fl using ys(2) by (simp add: rewritten_line_def)
    ultimately show ?thesis by blast
  next
    case True
    with "2.prems" obtain out1 h1 where
      sec: "write_new_node_section B adj h (out @ [old_line]) = (out1, Inr h1)" and
      run: "write_new_inp_file B adj h1 out1 = (out', None)"
      by (auto split: prod.splits sum.splits)
    from write_new_node_section_char [OF sec] obtain body ys1 s t where
      b: "h = body @ h1" "out1 = (out @ [old_line]) @ ys1" "\<forall>l\<in>set body. \<not> startswith l ''*''"
         "h1 = s # t" "startswith s ''*''"
         "list_all2 (\<lambda>l y. new_line B adj l = Inr y) body ys1"
      by blast
    from "2.IH"(1) [OF True sec [symmetric] refl run] obtain ys2 where
      ys2: "out' = out1 @ ys2"
           "list_all2 (rewritten_line B adj) (zip (node_section_lines False h1) h1) ys2"
      by blast
    have star: "startswith old_line ''*''" using True by (rule startswith_Node_star)
    have fl: "node_section_lines False (old_line # h) =
        False # replicate (length body) True @ node_section_lines False h1"
      using star True b(1,3,4,5) by (simp add: node_section_lines_body)
    have len: "length ys1 = length body" using b(6) by (simp add: list_all2_lengthD)
    have body: "list_all2 (rewritten_line B adj) (zip (replicate (length body) True) body) ys1"
      using b(6) by (induction body ys1 rule: list_all2_induct) (simp_all add: rewritten_line_def)
    have "zip (node_section_lines False (old_line # h)) (old_line # h) =
        zip (False # replicate (length body) True @ node_section_lines False h1)
            (old_line # body @ h1)"
      using fl b(1) by simp
    then have z: "zip (node_section_lines False (old_line # h)) (old_line # h) =
        (False, old_line) # zip (replicate (length body) True) body
          @ zip (node_section_lines False h1) h1"
      by simp
    have "out' = out @ (old_line # ys1 @ ys2)" using ys2(1) b(2) by simp
    moreover have "list_all2 (rewritten_line B adj)
        (zip (node_section_lines False (old_line # h)) (old_line # h)) (old_line # ys1 @ ys2)"
      unfolding z using body ys2(2) by (simp add: rewritten_line_def list_all2_appendI)
    ultimately show ?thesis by blast
  qed
qed

lemma write_new_inp_file_lines:
  assumes "write_new_inp_file B adj h [] = (out, None)"
  shows "length out = length h"
    and "\<And>i. i < length h \<Longrightarrow>
          (if node_section_lines False h ! i then new_line B adj (h ! i) = Inr (out ! i)
           else out ! i = h ! i)"
proof -
  from write_new_inp_file_char [OF assms]
  have all: "list_all2 (rewritten_line B adj) (zip (node_section_lines False h) h) out"
    by simp
  then have "length (zip (node_section_lines False h) h) = length out"
    by (rule list_all2_lengthD)
  then show len: "length out = length h"
    by (simp add: length_node_section_lines)
  fix i assume i: "i < length h"
  then have "i < length (zip (node_section_lines False h) h)"
    by (simp add: length_node_section_lines)
  from list_all2_nthD [OF all this]
  have "rewritten_line B adj (zip (node_section_lines False h) h ! i) (out ! i)" .
  with i show "if node_section_lines False h ! i then new_line B adj (h ! i) = Inr (out ! i)
           else out ! i = h ! i"
    by (auto simp add: rewritten_line_def length_node_section_lines split: if_splits)
qed

text \<open>
  The reader stops at the next line that starts with \<^verbatim>\<open>*\<close>; the second pass of the
  parser therefore meets every \<^verbatim>\<open>*Node\<close> header of the file.
\<close>

lemma read_node_loop_stops_at_star:
  "read_node_loop B d (xs @ s # rest) = Inr (d', h') \<Longrightarrow> startswith s ''*'' \<Longrightarrow>
   \<exists>xs'. h' = xs' @ s # rest \<and> length xs' \<le> length xs"
proof (induction xs arbitrary: d)
  case Nil
  then show ?case by simp
next
  case (Cons l xs)
  show ?case
  proof (cases "startswith l ''*''")
    case True
    with Cons.prems have "h' = (l # xs) @ s # rest" by simp
    then show ?thesis by blast
  next
    case False
    with Cons.prems(1) obtain n cs where
      run: "read_node_loop B (d(n \<mapsto> cs)) (xs @ s # rest) = Inr (d', h')"
      by (auto split: option.splits)
    from Cons.IH [OF run Cons.prems(2)] show ?thesis by auto
  qed
qed

lemma read_node_loop_rest_subset:
  "read_node_loop B d h = Inr (d', h') \<Longrightarrow> set h' \<subseteq> set h"
  by (induction B d h rule: read_node_loop.induct) (fastforce split: if_splits option.splits)+

lemma collect_nodes_no_header:
  "\<forall>l\<in>set h. \<not> startswith l ''*Node\<newline>'' \<Longrightarrow> collect_nodes B d h = Inr d"
  by (induction h) auto

lemma collect_nodes_reaches_header:
  "collect_nodes B d0 (pre @ hdr # sec) = Inr d \<Longrightarrow> startswith hdr ''*Node\<newline>'' \<Longrightarrow>
   \<exists>d1. collect_nodes B d1 (hdr # sec) = Inr d"
proof (induction "length pre" arbitrary: pre d0 rule: less_induct)
  case less
  show ?case
  proof (cases pre)
    case Nil
    with less.prems show ?thesis by auto
  next
    case (Cons l pre')
    show ?thesis
    proof (cases "startswith l ''*Node\<newline>''")
      case False
      with less.prems(1) Cons have "collect_nodes B d0 (pre' @ hdr # sec) = Inr d" by simp
      moreover have "length pre' < length pre" using Cons by simp
      ultimately show ?thesis using less.hyps less.prems(2) by blast
    next
      case True
      with less.prems(1) Cons obtain d1 h' where
        rd: "read_node_loop B Map.empty (pre' @ hdr # sec) = Inr (d1, h')" and
        run: "collect_nodes B d1 h' = Inr d"
        by (auto simp add: read_node_coordinates_def split: sum.splits)
      from read_node_loop_stops_at_star [OF rd startswith_Node_star [OF less.prems(2)]]
      obtain xs' where xs': "h' = xs' @ hdr # sec" "length xs' \<le> length pre'" by blast
      have "length xs' < length pre" using xs'(2) Cons by simp
      with less.hyps [of xs' d1] run xs'(1) less.prems(2) show ?thesis by blast
    qed
  qed
qed

text \<open>A node section that runs to the end of the input.\<close>

lemma read_node_loop_truncated:
  "\<forall>l\<in>set body. \<not> startswith l ''*'' \<Longrightarrow>
   \<exists>e. read_node_loop B d body = Inl e
      \<and> (node_records_parse B True body \<longrightarrow> e = Exception ''end of inp file'')"
proof (induction body arbitrary: d)
  case Nil
  then show ?case by simp
next
  case (Cons l body)
  then show ?case by (auto split: option.splits)
qed

lemma read_node_loop_parses:
  "node_records_parse B True (xs @ s # rest) \<Longrightarrow> startswith s ''*'' \<Longrightarrow>
   \<exists>d' h'. read_node_loop B d (xs @ s # rest) = Inr (d', h')"
proof (induction xs arbitrary: d)
  case Nil
  then show ?case by simp
next
  case (Cons l xs)
  then show ?case by (cases "startswith l ''*''") (auto split: option.splits)
qed

lemma node_records_parse_suffix:
  "read_node_loop B d h = Inr (d', h') \<Longrightarrow> node_records_parse B True h \<Longrightarrow>
   node_records_parse B False h'"
proof (induction B d h rule: read_node_loop.induct)
  case (1 B d)
  then show ?case by simp
next
  case (2 B d line rest)
  show ?case
  proof (cases "startswith line ''*''")
    case True
    with "2.prems" show ?thesis by auto
  next
    case False
    with "2.prems"(1) obtain n cs where
      rec: "node_record B line = Some (n, cs)" and
      run: "read_node_loop B (d(n \<mapsto> cs)) rest = Inr (d', h')"
      by (auto split: option.splits)
    from "2.prems"(2) False have "node_records_parse B True rest" by simp
    from "2.IH" [OF False rec refl run this] show ?thesis .
  qed
qed

lemma collect_nodes_truncated:
  "\<forall>l\<in>set body. \<not> startswith l ''*'' \<Longrightarrow> startswith hdr ''*Node\<newline>'' \<Longrightarrow>
   \<exists>e. collect_nodes B d0 (pre @ hdr # body) = Inl e
      \<and> (node_records_parse B False (pre @ hdr # body) \<longrightarrow> e = Exception ''end of inp file'')"
proof (induction "length pre" arbitrary: pre d0 rule: less_induct)
  case less
  have star: "startswith hdr ''*''" using less.prems(2) by (rule startswith_Node_star)
  show ?case
  proof (cases pre)
    case Nil
    from read_node_loop_truncated [OF less.prems(1), of B Map.empty]
    obtain e where e: "read_node_loop B Map.empty body = Inl e"
      "node_records_parse B True body \<longrightarrow> e = Exception ''end of inp file''" by blast
    with Nil less.prems(2) star show ?thesis
      by (simp add: read_node_coordinates_def)
  next
    case (Cons l pre')
    show ?thesis
    proof (cases "startswith l ''*Node\<newline>''")
      case False
      have "length pre' < length pre" using Cons by simp
      from less.hyps [OF this less.prems, of d0]
      obtain e where e: "collect_nodes B d0 (pre' @ hdr # body) = Inl e"
        "node_records_parse B False (pre' @ hdr # body) \<longrightarrow> e = Exception ''end of inp file''"
        by blast
      have "node_records_parse B False (l # pre' @ hdr # body)
          = node_records_parse B False (pre' @ hdr # body)"
        using False by simp
      with e Cons False show ?thesis by simp
    next
      case True
      have lstar: "startswith l ''*''" using True by (rule startswith_Node_star)
      have np: "node_records_parse B False (pre @ hdr # body)
          = node_records_parse B True (pre' @ hdr # body)"
        using Cons True lstar by simp
      show ?thesis
      proof (cases "read_node_loop B Map.empty (pre' @ hdr # body)")
        case (Inl e)
        have "\<not> node_records_parse B True (pre' @ hdr # body)"
          using read_node_loop_parses [of B pre' hdr body Map.empty] star Inl by auto
        with Inl Cons True np show ?thesis
          by (simp add: read_node_coordinates_def)
      next
        case (Inr r)
        obtain d1 h' where r: "r = (d1, h')" by (cases r)
        from read_node_loop_stops_at_star [OF Inr [unfolded r] star]
        obtain xs' where xs': "h' = xs' @ hdr # body" "length xs' \<le> length pre'" by blast
        have "length xs' < length pre" using xs'(2) Cons by simp
        from less.hyps [OF this less.prems, of d1]
        obtain e where e: "collect_nodes B d1 (xs' @ hdr # body) = Inl e"
          "node_records_parse B False (xs' @ hdr # body) \<longrightarrow> e = Exception ''end of inp file''"
          by blast
        have "node_records_parse B True (pre' @ hdr # body) \<longrightarrow>
              node_records_parse B False (xs' @ hdr # body)"
          using node_records_parse_suffix [OF Inr [unfolded r]] xs'(1) by simp
        with e np Inr r xs'(1) Cons True show ?thesis
          by (simp add: read_node_coordinates_def)
      qed
    qed
  qed
qed

text \<open>The lines of a text, put together again, are the text.\<close>

lemma concat_file_lines: "concat (file_lines s) = s"
  by (induction s) (auto split: list.splits)

section \<open>Properties of the clusterer\<close>

text \<open>
  C1. Stated for all pairs of a group and for the as-read coordinates, the claim does not
  hold: an earlier snap can move one node of a coincident pair away from the other. What
  holds, for a run over a single group whose first node \<open>a\<close> is not repeated in the group,
  a positive tolerance, nodes that all have three coordinates and a rounded subtraction:
  the run succeeds and \<open>a\<close> keeps its coordinate; a later node \<open>b\<close> of the group ends with
  the coordinate of \<open>a\<close> if and only if the absolute value of each of the three differences
  between the first three coordinates of \<open>a\<close> and of \<open>b\<close> as read, as the float subtraction
  returns them, is strictly less than the tolerance (so a computed difference of exactly
  the tolerance on one axis keeps the two apart); and in the output no two nodes of the
  group are coincident and yet different.
\<close>

theorem adjust_nodes_first_node_iff:
  assumes "a \<notin> set rest" and "0 < tol" and "T a = Some ca" and "3 \<le> length ca"
    and "\<forall>n\<in>set rest. has_three_coords T n"
    and rs: "rounded_sub B"
  shows "\<exists>adjusted st. adjust_nodes B T [a # rest] tol = Inr (adjusted, st)
           \<and> node_coords_dict st a = Some ca
           \<and> (\<forall>b\<in>set rest. (node_coords_dict st b = Some ca) = coincident B tol ca (the (T b)))
           \<and> (\<forall>b\<in>set (a # rest). \<forall>c\<in>set (a # rest). \<forall>cb cc.
                 node_coords_dict st b = Some cb \<longrightarrow> node_coords_dict st c = Some cc \<longrightarrow>
                 coincident B tol cb cc \<longrightarrow> cb = cc)"
proof -
  let ?st0 = "\<lparr>node_coords_dict = T, adjusted_nodes = [], substitutions = 0\<rparr>"
  have "group_ok (node_coords_dict ?st0) (a # rest)"
    using assms(3,4,5) by (auto simp add: group_ok_def has_three_coords_def split: option.splits)
  from adjust_group_succeeds [OF this]
  obtain st where run: "adjust_group B tol (a # rest) ?st0 = Inr st" by blast
  then obtain st1 where
    inner: "compare_later B tol a ca rest ?st0 = Inr st1" and
    later: "adjust_group B tol rest st1 = Inr st"
    using assms(3) by (auto split: sum.splits)
  let ?S = "{n \<in> set rest. coincident B tol ca (the (T n))}"
  let ?K = "\<lambda>s::clusterer_state. node_coords_dict s a = Some ca \<and>
     (\<forall>n\<in>set rest. \<exists>c. node_coords_dict s n = Some c
          \<and> (if n \<in> ?S then c = ca else \<not> coincident B tol ca c))"
  have t1: "node_coords_dict st1 = (\<lambda>n. if n \<in> ?S then Some ca else T n)"
    using compare_later_char [OF rs inner] assms(3) by (auto simp add: fun_eq_iff)
  have k1: "?K st1"
    unfolding t1 using assms(1,3,5)
    by (auto simp add: has_three_coords_def split: option.splits)
  have k: "?K st"
  proof (rule adjust_group_invariant [where Inv = ?K, OF later k1])
    fix s :: clusterer_state and m1 m2 d1 d2
    assume K: "?K s" and m1: "m1 \<in> set rest" and m2: "m2 \<in> set rest"
      and d1: "node_coords_dict s m1 = Some d1" and d2: "node_coords_dict s m2 = Some d2"
      and co: "coincident B tol d1 d2"
    from K m1 d1 have p1: "if m1 \<in> ?S then d1 = ca else \<not> coincident B tol ca d1" by fastforce
    from K m2 d2 have p2: "if m2 \<in> ?S then d2 = ca else \<not> coincident B tol ca d2" by fastforce
    have new: "if m2 \<in> ?S then d1 = ca else \<not> coincident B tol ca d1"
    proof (cases "m2 \<in> ?S")
      case True
      with p2 have "d2 = ca" by simp
      with co have "coincident B tol ca d1" by (simp add: coincident_sym [OF rs])
      with p1 True show ?thesis by (auto split: if_splits)
    next
      case False
      with p2 have "\<not> coincident B tol ca d2" by simp
      with co p1 False show ?thesis by (auto split: if_splits)
    qed
    have a2: "m2 \<noteq> a" using m2 assms(1) by auto
    show "?K (snap s m2 d1)"
      using K new a2 by (auto simp add: snap_def)
  qed
  have iff: "\<forall>b\<in>set rest. (node_coords_dict st b = Some ca) = coincident B tol ca (the (T b))"
  proof
    fix b assume b: "b \<in> set rest"
    with k obtain c where c: "node_coords_dict st b = Some c"
      and p: "if b \<in> ?S then c = ca else \<not> coincident B tol ca c" by blast
    show "(node_coords_dict st b = Some ca) = coincident B tol ca (the (T b))"
    proof (cases "b \<in> ?S")
      case True
      with p c b show ?thesis by simp
    next
      case False
      with p have "\<not> coincident B tol ca c" by simp
      with assms(2) have "c \<noteq> ca" by (auto simp add: coincident_refl [OF rs])
      with c False b show ?thesis by simp
    qed
  qed
  have "settled B tol (node_coords_dict st) (a # rest)"
    by (rule adjust_group_settled [OF rs run])
  then have apart: "\<forall>b\<in>set (a # rest). \<forall>c\<in>set (a # rest). \<forall>cb cc.
      node_coords_dict st b = Some cb \<longrightarrow> node_coords_dict st c = Some cc \<longrightarrow>
      coincident B tol cb cc \<longrightarrow> cb = cc"
    unfolding settled_def .
  have res: "adjust_nodes B T [a # rest] tol
      = Inr (node_coords_dict st |` set (adjusted_nodes st), st)"
    using run by (simp add: adjust_nodes_def)
  from k have ka: "node_coords_dict st a = Some ca" ..
  from res ka iff apart show ?thesis by blast
qed

theorem adjust_nodes_first_node_iff_witness:
  "(1::int) \<notin> set [2, 3] \<and> (0::real) < 1 / 1000
   \<and> [1 \<mapsto> [0, 0, 0], 2 \<mapsto> [5 / 10000, 0, 0], 3 \<mapsto> [1 / 1000, 0, 0 :: real]] (1::int) = Some [0, 0, 0]
   \<and> 3 \<le> length [0, 0, 0 :: real]
   \<and> has_three_coords [1 \<mapsto> [0, 0, 0], 2 \<mapsto> [5 / 10000, 0, 0], 3 \<mapsto> [1 / 1000, 0, 0]] 2
   \<and> has_three_coords [1 \<mapsto> [0, 0, 0], 2 \<mapsto> [5 / 10000, 0, 0], 3 \<mapsto> [1 / 1000, 0, 0]] 3
   \<and> coincident plain_builtins (1 / 1000) [0, 0, 0] [5 / 10000, 0, 0]
   \<and> \<not> coincident plain_builtins (1 / 1000) [0, 0, 0] [1 / 1000, 0, 0]
   \<and> rounded_sub plain_builtins
   \<and> (\<exists>adjusted st.
         adjust_nodes plain_builtins [1 \<mapsto> [0, 0, 0], 2 \<mapsto> [5 / 10000, 0, 0], 3 \<mapsto> [1 / 1000, 0, 0]]
           [[1, 2, 3]] (1 / 1000) = Inr (adjusted, st)
       \<and> node_coords_dict st 1 = Some [0, 0, 0]
       \<and> node_coords_dict st 2 = Some [0, 0, 0]
       \<and> node_coords_dict st 3 \<noteq> Some [0, 0, 0])"
proof -
  let ?T = "[1 \<mapsto> [0, 0, 0], 2 \<mapsto> [5 / 10000, 0, 0], 3 \<mapsto> [1 / 1000, 0, 0 :: real]] :: node_table"
  have h1: "(1::int) \<notin> set [2, 3]" by simp
  have h2: "(0::real) < 1 / 1000" by simp
  have h3: "?T 1 = Some [0, 0, 0]" by simp
  have h4: "3 \<le> length [0, 0, 0 :: real]" by simp
  have h5: "\<forall>n\<in>set [2, 3]. has_three_coords ?T n" by (simp add: has_three_coords_def)
  have c2: "coincident plain_builtins (1 / 1000) [0, 0, 0] [5 / 10000, 0, 0]" by (simp add: coincident_def plain_builtins_def)
  have c3: "\<not> coincident plain_builtins (1 / 1000) [0, 0, 0] [1 / 1000, 0, 0]" by (simp add: coincident_def plain_builtins_def)
  note h6 = rounded_sub_plain
  from adjust_nodes_first_node_iff [OF h1 h2 h3 h4 h5 h6]
  obtain adjusted st where
    run: "adjust_nodes plain_builtins ?T [[1, 2, 3]] (1 / 1000) = Inr (adjusted, st)" and
    a: "node_coords_dict st 1 = Some [0, 0, 0]" and
    iff: "\<forall>b\<in>set [2, 3]. (node_coords_dict st b = Some [0, 0, 0])
            = coincident plain_builtins (1 / 1000) [0, 0, 0] (the (?T b))"
    by blast
  from iff c2 c3 have "node_coords_dict st 2 = Some [0, 0, 0]"
    "node_coords_dict st 3 \<noteq> Some [0, 0, 0]" by simp_all
  with run a h1 h2 h3 h4 h5 h6 c2 c3 show ?thesis by auto
qed

text \<open>
  Where the statement for all pairs fails: the group is \<open>[1, 2, 3]\<close>, the tolerance is 10
  and the first coordinates are 0, 8 and 15 (the differences of these are exact). The nodes
  2 and 3 are coincident as read; node 2 is snapped to node 1 first, and node 3 then stays
  where it was.
\<close>

theorem adjust_nodes_coincident_pair_left_apart:
  "coincident plain_builtins 10 [8, 0, 0] [15, 0, 0]
   \<and> adjust_nodes plain_builtins [1 \<mapsto> [0, 0, 0], 2 \<mapsto> [8, 0, 0], 3 \<mapsto> [15, 0, 0]]
        [[1, 2, 3]] 10
      = Inr ([2 \<mapsto> [0, 0, 0]],
             \<lparr>node_coords_dict = [1 \<mapsto> [0, 0, 0], 2 \<mapsto> [0, 0, 0], 3 \<mapsto> [15, 0, 0]],
              adjusted_nodes = [2], substitutions = 1\<rparr>)
   \<and> [0, 0, 0] \<noteq> [15, 0, 0 :: real]"
  by (simp add: adjust_nodes_def coincident_def plain_builtins_def restrict_map_def fun_eq_iff)

text \<open>
  C2. With the node table \<open>{1:(0,0,0), 2:(0.0005,0,0), 3:(5,5,5)}\<close>, the single group
  \<open>[1,2,3]\<close> and tolerance \<open>0.001\<close>, the clusterer succeeds, node 2 ends at \<open>(0,0,0)\<close>,
  node 3 keeps \<open>(5,5,5)\<close>, the returned dict holds node 2 alone with \<open>(0,0,0)\<close>, and one
  substitution was made: the changed-node count is 1. This holds for every rounded
  subtraction: no difference of the scenario is near the tolerance.
\<close>

theorem adjust_nodes_scenario:
  assumes rs: "rounded_sub B"
  shows "adjust_nodes B [1 \<mapsto> [0, 0, 0], 2 \<mapsto> [5 / 10000, 0, 0], 3 \<mapsto> [5, 5, 5]] [[1, 2, 3]] (1 / 1000)
     = Inr ([2 \<mapsto> [0, 0, 0]],
            \<lparr>node_coords_dict = [1 \<mapsto> [0, 0, 0], 2 \<mapsto> [0, 0, 0], 3 \<mapsto> [5, 5, 5]],
             adjusted_nodes = [2], substitutions = 1\<rparr>)
   \<and> card (dom [2 \<mapsto> [0, 0, 0 :: real]]) = 1"
proof -
  have z: "float_sub B 0 0 = 0" by (rule rounded_sub_same [OF rs])
  have near: "\<bar>float_sub B 0 (5 / 10000)\<bar> < 1 / 1000"
    by (rule rounded_sub_near [OF rs]) simp
  have far: "\<not> \<bar>float_sub B 0 5\<bar> < 1 / 1000"
    by (rule rounded_sub_far [OF rs]) simp
  have c2: "coincident B (1 / 1000) [0, 0, 0] [5 / 10000, 0, 0]"
    using z near by (simp add: coincident_def)
  have c3: "\<not> coincident B (1 / 1000) [0, 0, 0] [5, 5, 5]"
    using far by (simp add: coincident_def)
  show ?thesis
    using c2 c3 by (simp add: adjust_nodes_def restrict_map_def fun_eq_iff)
qed

theorem adjust_nodes_scenario_witness:
  "rounded_sub plain_builtins
   \<and> adjust_nodes plain_builtins [1 \<mapsto> [0, 0, 0], 2 \<mapsto> [5 / 10000, 0, 0], 3 \<mapsto> [5, 5, 5]]
        [[1, 2, 3]] (1 / 1000)
     = Inr ([2 \<mapsto> [0, 0, 0]],
            \<lparr>node_coords_dict = [1 \<mapsto> [0, 0, 0], 2 \<mapsto> [0, 0, 0], 3 \<mapsto> [5, 5, 5]],
             adjusted_nodes = [2], substitutions = 1\<rparr>)
   \<and> card (dom [2 \<mapsto> [0, 0, 0 :: real]]) = 1"
  using adjust_nodes_scenario [OF rounded_sub_plain] rounded_sub_plain by blast

text \<open>
  C3. Stated for nodes that are coincident as read, the claim does not hold: when \<open>B\<close> has
  been snapped to \<open>A\<close>, it is the coordinate of \<open>A\<close> that is compared with \<open>C\<close> in group 2, and
  \<open>C\<close> stays where it was if it is coincident with \<open>B\<close> as read only. What holds, for nodes
  \<open>a, n1, n2, ...\<close> met two by two in the groups \<open>[a, n1]\<close>, \<open>[n1, n2]\<close>, ... in this order: if
  each pair is coincident when its group is processed (\<open>links_coincident\<close>: the test is on
  the table in which the earlier links have been snapped, so \<open>C\<close> is tested against the
  coordinate \<open>B\<close> then holds, which is that of \<open>A\<close>), the run succeeds and every node of the
  chain ends with the as-read coordinate of the first node \<open>a\<close>; the returned dict records
  that coordinate for every later node. With the chain \<open>A, B, C\<close>: \<open>C\<close> ends with the
  coordinate of \<open>A\<close>, not with the one \<open>B\<close> had as read, although \<open>A\<close> and \<open>C\<close> are never
  compared.
\<close>

theorem adjust_nodes_chain_converges:
  assumes "links_coincident B tol T (a # ns)" and "T a = Some c0"
  shows "\<exists>adjusted st. adjust_nodes B T (chain_groups (a # ns)) tol = Inr (adjusted, st)
           \<and> (\<forall>n\<in>set (a # ns). node_coords_dict st n = Some c0)
           \<and> (\<forall>n\<in>set ns. adjusted n = Some c0)
           \<and> adjusted_nodes st = ns"
proof -
  let ?st0 = "\<lparr>node_coords_dict = T, adjusted_nodes = [], substitutions = 0\<rparr>"
  have l: "links_coincident B tol (node_coords_dict ?st0) (a # ns)" using assms(1) by simp
  have a: "node_coords_dict ?st0 a = Some c0" using assms(2) by simp
  from chain_run [OF l a] obtain st where
    run: "adjust_groups B tol (chain_groups (a # ns)) ?st0 = Inr st" and
    all: "\<forall>n\<in>set (a # ns). node_coords_dict st n = Some c0" and
    adj: "adjusted_nodes st = adjusted_nodes ?st0 @ ns"
    by blast
  from run all adj show ?thesis
    by (simp add: adjust_nodes_def)
qed

theorem adjust_nodes_chain_converges_witness:
  "links_coincident plain_builtins (1 / 1000)
     [1 \<mapsto> [0, 0, 0], 2 \<mapsto> [5 / 10000, 0, 0], 3 \<mapsto> [9 / 10000, 0, 0]] [1, 2, 3]
   \<and> [1 \<mapsto> [0, 0, 0], 2 \<mapsto> [5 / 10000, 0, 0], 3 \<mapsto> [9 / 10000, 0, 0 :: real]] (1::int) = Some [0, 0, 0]
   \<and> (\<exists>adjusted st.
         adjust_nodes plain_builtins [1 \<mapsto> [0, 0, 0], 2 \<mapsto> [5 / 10000, 0, 0], 3 \<mapsto> [9 / 10000, 0, 0]]
           [[1, 2], [2, 3]] (1 / 1000) = Inr (adjusted, st)
       \<and> node_coords_dict st 1 = Some [0, 0, 0]
       \<and> node_coords_dict st 2 = Some [0, 0, 0]
       \<and> node_coords_dict st 3 = Some [0, 0, 0]
       \<and> adjusted 3 = Some [0, 0, 0]
       \<and> adjusted_nodes st = [2, 3])"
proof -
  let ?T = "[1 \<mapsto> [0, 0, 0], 2 \<mapsto> [5 / 10000, 0, 0], 3 \<mapsto> [9 / 10000, 0, 0 :: real]] :: node_table"
  have h1: "links_coincident plain_builtins (1 / 1000) ?T [1, 2, 3]" by (simp add: coincident_def plain_builtins_def)
  have h2: "?T 1 = Some [0, 0, 0]" by simp
  have cg: "chain_groups [1, 2, 3] = [[1, 2], [2, 3]]" by simp
  from adjust_nodes_chain_converges [OF h1 h2]
  obtain adjusted st where
    run: "adjust_nodes plain_builtins ?T (chain_groups [1, 2, 3]) (1 / 1000) = Inr (adjusted, st)" and
    all: "\<forall>n\<in>set [1, 2, 3]. node_coords_dict st n = Some [0, 0, 0]" and
    adj: "\<forall>n\<in>set [2, 3]. adjusted n = Some [0, 0, 0]" and
    ns: "adjusted_nodes st = [2, 3]"
    by blast
  from run have run': "adjust_nodes plain_builtins ?T [[1, 2], [2, 3]] (1 / 1000) = Inr (adjusted, st)"
    unfolding cg .
  from all have n: "node_coords_dict st 1 = Some [0, 0, 0]"
    "node_coords_dict st 2 = Some [0, 0, 0]" "node_coords_dict st 3 = Some [0, 0, 0]"
    by simp_all
  from adj have a3: "adjusted 3 = Some [0, 0, 0]" by simp
  from h1 h2 run' n a3 ns show ?thesis by blast
qed

text \<open>
  Where the statement on as-read coordinates fails: the groups are \<open>[1, 2]\<close> and \<open>[2, 3]\<close>,
  the tolerance is 10 and the first coordinates are 0, 8 and 15. Nodes 1 and 2 are
  coincident, and so are nodes 2 and 3 as read; node 2 is snapped to node 1, and node 3,
  compared with the new coordinate of node 2, keeps its own.
\<close>

theorem adjust_nodes_chain_as_read_stops:
  "coincident plain_builtins 10 [0, 0, 0] [8, 0, 0]
   \<and> coincident plain_builtins 10 [8, 0, 0] [15, 0, 0]
   \<and> adjust_nodes plain_builtins [1 \<mapsto> [0, 0, 0], 2 \<mapsto> [8, 0, 0], 3 \<mapsto> [15, 0, 0]]
        [[1, 2], [2, 3]] 10
      = Inr ([2 \<mapsto> [0, 0, 0]],
             \<lparr>node_coords_dict = [1 \<mapsto> [0, 0, 0], 2 \<mapsto> [0, 0, 0], 3 \<mapsto> [15, 0, 0]],
              adjusted_nodes = [2], substitutions = 1\<rparr>)
   \<and> [15, 0, 0] \<noteq> [0, 0, 0 :: real]"
  by (simp add: adjust_nodes_def coincident_def plain_builtins_def restrict_map_def fun_eq_iff)

text \<open>
  C4. A second run can move nodes again, and its changed-node set is not empty: with two
  groups, a node snapped in the first group can be left behind when its partner is snapped
  to a third node in a later group, and the second run then moves it. What holds: after a
  run over a single group, a second run over the same group with the same tolerance
  succeeds and leaves every coordinate of the table as the first run left it, for every
  rounded subtraction. (Its
  changed-node set still names the nodes that are equal to an earlier node of the group,
  so their lines are formatted again.)
\<close>

theorem adjust_nodes_single_group_rerun:
  assumes "adjust_nodes B T [g] tol = Inr (adjusted, st)" and rs: "rounded_sub B"
  shows "\<exists>adjusted' st'. adjust_nodes B (node_coords_dict st) [g] tol = Inr (adjusted', st')
           \<and> node_coords_dict st' = node_coords_dict st"
proof -
  let ?st0 = "\<lparr>node_coords_dict = T, adjusted_nodes = [], substitutions = 0\<rparr>"
  let ?st1 = "\<lparr>node_coords_dict = node_coords_dict st, adjusted_nodes = [], substitutions = 0\<rparr>"
  from assms have run: "adjust_group B tol g ?st0 = Inr st"
    by (auto simp add: adjust_nodes_def split: sum.splits)
  have "group_ok (node_coords_dict ?st1) g"
    using adjust_group_ok_final [OF run] by simp
  from adjust_group_succeeds [OF this]
  obtain st' where run2: "adjust_group B tol g ?st1 = Inr st'" by blast
  have "settled B tol (node_coords_dict ?st1) g"
    using adjust_group_settled [OF rs run] by simp
  from adjust_group_fixpoint [OF run2 this]
  have "node_coords_dict st' = node_coords_dict st" by simp
  with run2 show ?thesis by (simp add: adjust_nodes_def)
qed

theorem adjust_nodes_single_group_rerun_witness:
  "rounded_sub plain_builtins
   \<and> adjust_nodes plain_builtins [1 \<mapsto> [0, 0, 0], 2 \<mapsto> [5 / 10000, 0, 0], 3 \<mapsto> [5, 5, 5]] [[1, 2, 3]] (1 / 1000)
     = Inr ([2 \<mapsto> [0, 0, 0]],
            \<lparr>node_coords_dict = [1 \<mapsto> [0, 0, 0], 2 \<mapsto> [0, 0, 0], 3 \<mapsto> [5, 5, 5]],
             adjusted_nodes = [2], substitutions = 1\<rparr>)
   \<and> (\<exists>adjusted' st'.
         adjust_nodes plain_builtins [1 \<mapsto> [0, 0, 0], 2 \<mapsto> [0, 0, 0], 3 \<mapsto> [5, 5, 5]] [[1, 2, 3]] (1 / 1000)
           = Inr (adjusted', st')
       \<and> node_coords_dict st' = [1 \<mapsto> [0, 0, 0], 2 \<mapsto> [0, 0, 0], 3 \<mapsto> [5, 5, 5]])"
proof -
  have run: "adjust_nodes plain_builtins [1 \<mapsto> [0, 0, 0], 2 \<mapsto> [5 / 10000, 0, 0], 3 \<mapsto> [5, 5, 5]] [[1, 2, 3]] (1 / 1000)
     = Inr ([2 \<mapsto> [0, 0, 0]],
            \<lparr>node_coords_dict = [1 \<mapsto> [0, 0, 0], 2 \<mapsto> [0, 0, 0], 3 \<mapsto> [5, 5, 5]],
             adjusted_nodes = [2], substitutions = 1\<rparr>)"
    by (simp add: adjust_nodes_def coincident_def plain_builtins_def restrict_map_def fun_eq_iff)
  from adjust_nodes_single_group_rerun [OF run rounded_sub_plain] run rounded_sub_plain
  show ?thesis by simp
qed

text \<open>
  Where a second run moves a node: the groups are \<open>[1, 2]\<close> and \<open>[3, 1]\<close> and the tolerance
  is 10. The first run snaps node 2 to node 1 and then node 1 to node 3; the second run, on
  the file the first one wrote, snaps node 2 to node 1 again, so that its output differs
  from its input. The last conjunct is the clusterer alone on the table of the second run.
\<close>

theorem coord_snap_rerun_moves_node:
  "coord_snap plain_builtins example_rerun ''cohesives'' 10
     = (Inr PyNone,
        Some ''*Node\<newline>1,3.0,0.0,0.0\<newline>2,0.0,0.0,0.0\<newline>3,3,0,0\<newline>*Element, type=COH3D8\<newline>1,1,2\<newline>2,3,1\<newline>*End\<newline>'')
   \<and> coord_snap plain_builtins
        ''*Node\<newline>1,3.0,0.0,0.0\<newline>2,0.0,0.0,0.0\<newline>3,3,0,0\<newline>*Element, type=COH3D8\<newline>1,1,2\<newline>2,3,1\<newline>*End\<newline>''
        ''cohesives'' 10
     = (Inr PyNone,
        Some ''*Node\<newline>1,3.0,0.0,0.0\<newline>2,3.0,0.0,0.0\<newline>3,3,0,0\<newline>*Element, type=COH3D8\<newline>1,1,2\<newline>2,3,1\<newline>*End\<newline>'')
   \<and> adjust_nodes plain_builtins [1 \<mapsto> [3, 0, 0], 2 \<mapsto> [0, 0, 0], 3 \<mapsto> [3, 0, 0]] [[1, 2], [3, 1]] 10
     = Inr ([1 \<mapsto> [3, 0, 0], 2 \<mapsto> [3, 0, 0]],
            \<lparr>node_coords_dict = [1 \<mapsto> [3, 0, 0], 2 \<mapsto> [3, 0, 0], 3 \<mapsto> [3, 0, 0]],
             adjusted_nodes = [2, 1], substitutions = 2\<rparr>)"
proof -
  have one: "coord_snap plain_builtins example_rerun ''cohesives'' 10
     = (Inr PyNone,
        Some ''*Node\<newline>1,3.0,0.0,0.0\<newline>2,0.0,0.0,0.0\<newline>3,3,0,0\<newline>*Element, type=COH3D8\<newline>1,1,2\<newline>2,3,1\<newline>*End\<newline>'')"
    by code_simp
  have two: "coord_snap plain_builtins
        ''*Node\<newline>1,3.0,0.0,0.0\<newline>2,0.0,0.0,0.0\<newline>3,3,0,0\<newline>*Element, type=COH3D8\<newline>1,1,2\<newline>2,3,1\<newline>*End\<newline>''
        ''cohesives'' 10
     = (Inr PyNone,
        Some ''*Node\<newline>1,3.0,0.0,0.0\<newline>2,3.0,0.0,0.0\<newline>3,3,0,0\<newline>*Element, type=COH3D8\<newline>1,1,2\<newline>2,3,1\<newline>*End\<newline>'')"
    by code_simp
  have three: "adjust_nodes plain_builtins [1 \<mapsto> [3, 0, 0], 2 \<mapsto> [0, 0, 0], 3 \<mapsto> [3, 0, 0]] [[1, 2], [3, 1]] 10
     = Inr ([1 \<mapsto> [3, 0, 0], 2 \<mapsto> [3, 0, 0]],
            \<lparr>node_coords_dict = [1 \<mapsto> [3, 0, 0], 2 \<mapsto> [3, 0, 0], 3 \<mapsto> [3, 0, 0]],
             adjusted_nodes = [2, 1], substitutions = 2\<rparr>)"
    by (simp add: adjust_nodes_def coincident_def plain_builtins_def restrict_map_def fun_eq_iff)
  from one two three show ?thesis by blast
qed

text \<open>
  C5. The changed-node set is the set of the nodes that were overwritten at least once, each
  with its coordinate in the table after all groups have been processed. It contains every
  node whose final coordinate differs from the one read, but it is not exactly that set: a
  node overwritten with the value it already had is in it too.
\<close>

theorem adjust_nodes_changed_set:
  assumes "adjust_nodes B T gs tol = Inr (adjusted, st)"
  shows "dom adjusted = set (adjusted_nodes st)
       \<and> (\<forall>n\<in>set (adjusted_nodes st). adjusted n = node_coords_dict st n)
       \<and> {n. node_coords_dict st n \<noteq> T n} \<subseteq> dom adjusted"
proof -
  let ?st0 = "\<lparr>node_coords_dict = T, adjusted_nodes = [], substitutions = 0\<rparr>"
  from assms have run: "adjust_groups B tol gs ?st0 = Inr st"
    and adj: "adjusted = node_coords_dict st |` set (adjusted_nodes st)"
    by (auto simp add: adjust_nodes_def split: sum.splits)
  have def: "\<forall>n\<in>set (adjusted_nodes st). node_coords_dict st n \<noteq> None"
    by (rule adjust_groups_adjusted_defined [OF run]) simp
  have unch: "\<forall>n. n \<notin> set (adjusted_nodes st) \<longrightarrow> node_coords_dict st n = T n"
    by (rule adjust_groups_unchanged_unless_adjusted [OF run]) simp
  have d: "dom adjusted = set (adjusted_nodes st)"
    using def unfolding adj by (auto simp add: restrict_map_def dom_def)
  have v: "\<forall>n\<in>set (adjusted_nodes st). adjusted n = node_coords_dict st n"
    unfolding adj by simp
  have c: "{n. node_coords_dict st n \<noteq> T n} \<subseteq> dom adjusted"
    unfolding d using unch by blast
  from d v c show ?thesis by blast
qed

theorem adjust_nodes_changed_set_witness:
  "adjust_nodes plain_builtins [1 \<mapsto> [0, 0, 0], 2 \<mapsto> [5 / 10000, 0, 0], 3 \<mapsto> [0, 0, 0]] [[1, 2], [1, 3]] (1 / 1000)
     = Inr ([2 \<mapsto> [0, 0, 0], 3 \<mapsto> [0, 0, 0]],
            \<lparr>node_coords_dict = [1 \<mapsto> [0, 0, 0], 2 \<mapsto> [0, 0, 0], 3 \<mapsto> [0, 0, 0]],
             adjusted_nodes = [2, 3], substitutions = 2\<rparr>)
   \<and> dom [2 \<mapsto> [0, 0, 0], 3 \<mapsto> [0, 0, 0 :: real]] = {2, 3 :: int}
   \<and> {n. [1 \<mapsto> [0, 0, 0], 2 \<mapsto> [0, 0, 0], 3 \<mapsto> [0, 0, 0]] n
          \<noteq> [1 \<mapsto> [0, 0, 0], 2 \<mapsto> [5 / 10000, 0, 0], 3 \<mapsto> [0, 0, 0 :: real]] (n::int)}
       \<subseteq> dom [2 \<mapsto> [0, 0, 0], 3 \<mapsto> [0, 0, 0 :: real]]"
proof -
  have run: "adjust_nodes plain_builtins [1 \<mapsto> [0, 0, 0], 2 \<mapsto> [5 / 10000, 0, 0], 3 \<mapsto> [0, 0, 0]] [[1, 2], [1, 3]] (1 / 1000)
     = Inr ([2 \<mapsto> [0, 0, 0], 3 \<mapsto> [0, 0, 0]],
            \<lparr>node_coords_dict = [1 \<mapsto> [0, 0, 0], 2 \<mapsto> [0, 0, 0], 3 \<mapsto> [0, 0, 0]],
             adjusted_nodes = [2, 3], substitutions = 2\<rparr>)"
    by (simp add: adjust_nodes_def coincident_def plain_builtins_def restrict_map_def fun_eq_iff)
  from adjust_nodes_changed_set [OF run] run show ?thesis by simp
qed

text \<open>
  Where the changed-node set is larger: node 2 has the coordinate of node 1 as read, is
  overwritten with it and recorded, and the table is the one that was read.
\<close>

theorem adjust_nodes_marks_unmoved_node:
  "adjust_nodes plain_builtins [1 \<mapsto> [0, 0, 0], 2 \<mapsto> [0, 0, 0]] [[1, 2]] (1 / 1000)
     = Inr ([2 \<mapsto> [0, 0, 0]],
            \<lparr>node_coords_dict = [1 \<mapsto> [0, 0, 0], 2 \<mapsto> [0, 0, 0]],
             adjusted_nodes = [2], substitutions = 1\<rparr>)
   \<and> dom [2 \<mapsto> [0, 0, 0 :: real]] = {2 :: int}"
  by (simp add: adjust_nodes_def coincident_def plain_builtins_def restrict_map_def fun_eq_iff)

section \<open>Properties of the rewriter\<close>

text \<open>
  C6. Frame property of the rewriter. When \<^verbatim>\<open>write_new_inp_file\<close> returns, it has
  written one string for each line of the old file, in order. Every line that is not a node
  record (not between a \<^verbatim>\<open>*Node\<close> header and the next line starting with \<^verbatim>\<open>*\<close>) is
  written as it was read, and so is every line whose node number is not a key of the
  changed-node dict, with all its fields. (The changed-node dict of the clusterer only has
  keys that occur in a group: \<open>adjust_nodes_changed_referenced\<close>. The text of the new file
  is the concatenation of the strings written, and \<open>concat_file_lines\<close> gives back the old
  text from its lines.)
\<close>

theorem write_new_inp_file_frame:
  assumes "write_new_inp_file B adj h [] = (out, None)"
  shows "length out = length h
       \<and> (\<forall>i<length h. \<not> node_section_lines False h ! i \<longrightarrow> out ! i = h ! i)
       \<and> (\<forall>i<length h. \<forall>n. py_int B (hd (split_comma (h ! i))) = Some n \<longrightarrow> adj n = None
              \<longrightarrow> out ! i = h ! i)"
proof (intro conjI allI impI)
  show "length out = length h" by (rule write_new_inp_file_lines(1) [OF assms])
next
  fix i assume "i < length h" "\<not> node_section_lines False h ! i"
  with write_new_inp_file_lines(2) [OF assms, of i] show "out ! i = h ! i" by simp
next
  fix i n assume i: "i < length h"
    and n: "py_int B (hd (split_comma (h ! i))) = Some n" "adj n = None"
  from write_new_inp_file_lines(2) [OF assms i] n show "out ! i = h ! i"
    by (auto simp add: new_line_def split: if_splits)
qed

theorem write_new_inp_file_frame_witness:
  "write_new_inp_file plain_builtins [2 \<mapsto> [0, 0, 0]] (file_lines example_inp) []
     = ([''*Heading\<newline>'', ''*Node\<newline>'', ''1,0,0,0\<newline>'', ''2,0.0,0.0,0.0\<newline>'', ''3,5,5,5\<newline>'', ''*Element, type=COH3D8\<newline>'', ''1,1,2,3\<newline>'', ''*End\<newline>''], None)
   \<and> length [''*Heading\<newline>'', ''*Node\<newline>'', ''1,0,0,0\<newline>'', ''2,0.0,0.0,0.0\<newline>'', ''3,5,5,5\<newline>'', ''*Element, type=COH3D8\<newline>'', ''1,1,2,3\<newline>'', ''*End\<newline>''] = length (file_lines example_inp)
   \<and> \<not> node_section_lines False (file_lines example_inp) ! 6
   \<and> [''*Heading\<newline>'', ''*Node\<newline>'', ''1,0,0,0\<newline>'', ''2,0.0,0.0,0.0\<newline>'', ''3,5,5,5\<newline>'', ''*Element, type=COH3D8\<newline>'', ''1,1,2,3\<newline>'', ''*End\<newline>''] ! 6 = file_lines example_inp ! 6
   \<and> py_int plain_builtins (hd (split_comma (file_lines example_inp ! 4))) = Some 3
   \<and> [2 \<mapsto> [0, 0, 0 :: real]] (3 :: int) = None
   \<and> [''*Heading\<newline>'', ''*Node\<newline>'', ''1,0,0,0\<newline>'', ''2,0.0,0.0,0.0\<newline>'', ''3,5,5,5\<newline>'', ''*Element, type=COH3D8\<newline>'', ''1,1,2,3\<newline>'', ''*End\<newline>''] ! 4 = file_lines example_inp ! 4
   \<and> file_lines example_inp ! 4 = ''3,5,5,5\<newline>''"
proof -
  let ?h = "file_lines example_inp"
  let ?out = "[''*Heading\<newline>'', ''*Node\<newline>'', ''1,0,0,0\<newline>'', ''2,0.0,0.0,0.0\<newline>'', ''3,5,5,5\<newline>'', ''*Element, type=COH3D8\<newline>'', ''1,1,2,3\<newline>'', ''*End\<newline>'']"
  have run: "write_new_inp_file plain_builtins [2 \<mapsto> [0, 0, 0]] ?h [] = (?out, None)"
    by code_simp
  note frame = write_new_inp_file_frame [OF run]
  have len: "length ?out = length ?h" using frame by blast
  have i6: "6 < length ?h" and i4: "4 < length ?h" by code_simp+
  have f6: "\<not> node_section_lines False ?h ! 6" by code_simp
  have n4: "py_int plain_builtins (hd (split_comma (?h ! 4))) = Some 3" by code_simp
  have a3: "[2 \<mapsto> [0, 0, 0 :: real]] (3 :: int) = None" by simp
  have l4: "?h ! 4 = ''3,5,5,5\<newline>''" by code_simp
  from frame i6 f6 have o6: "?out ! 6 = ?h ! 6" by blast
  from frame i4 n4 a3 have o4: "?out ! 4 = ?h ! 4" by blast
  from run len f6 o6 n4 a3 o4 l4 show ?thesis by blast
qed

text \<open>
  C7. When \<^verbatim>\<open>write_new_inp_file\<close> returns, the string written for a node record whose node
  number is a key of the changed-node dict is the node number and the first three
  coordinates of the dict's tuple, separated by commas and ended by a newline: the fields
  of the old line play no part, however many there were. (The tuple has at least three
  entries, or the call would have raised \<^verbatim>\<open>IndexError\<close>.)
\<close>

theorem write_new_inp_file_three_coords:
  assumes "write_new_inp_file B adj h [] = (out, None)"
  shows "\<forall>i<length h. node_section_lines False h ! i \<longrightarrow>
           (\<forall>n cs. py_int B (hd (split_comma (h ! i))) = Some n \<longrightarrow> adj n = Some cs \<longrightarrow>
              3 \<le> length cs
              \<and> out ! i = format_int B n @ '','' @ format_float B (cs ! 0)
                        @ '','' @ format_float B (cs ! 1)
                        @ '','' @ format_float B (cs ! 2) @ ''\<newline>'')"
proof (intro allI impI)
  fix i n cs assume i: "i < length h" and f: "node_section_lines False h ! i"
    and n: "py_int B (hd (split_comma (h ! i))) = Some n" "adj n = Some cs"
  from write_new_inp_file_lines(2) [OF assms i] f n
  show "3 \<le> length cs
      \<and> out ! i = format_int B n @ '','' @ format_float B (cs ! 0)
                @ '','' @ format_float B (cs ! 1)
                @ '','' @ format_float B (cs ! 2) @ ''\<newline>''"
    by (auto simp add: new_line_def split: if_splits)
qed

theorem write_new_inp_file_three_coords_witness:
  "write_new_inp_file plain_builtins [2 \<mapsto> [0, 0, 0]] (file_lines example_inp) []
     = ([''*Heading\<newline>'', ''*Node\<newline>'', ''1,0,0,0\<newline>'', ''2,0.0,0.0,0.0\<newline>'', ''3,5,5,5\<newline>'', ''*Element, type=COH3D8\<newline>'', ''1,1,2,3\<newline>'', ''*End\<newline>''], None)
   \<and> file_lines example_inp ! 3 = ''2,1,0,0,7\<newline>''
   \<and> node_section_lines False (file_lines example_inp) ! 3
   \<and> py_int plain_builtins (hd (split_comma (file_lines example_inp ! 3))) = Some 2
   \<and> [2 \<mapsto> [0, 0, 0 :: real]] (2 :: int) = Some [0, 0, 0]
   \<and> [''*Heading\<newline>'', ''*Node\<newline>'', ''1,0,0,0\<newline>'', ''2,0.0,0.0,0.0\<newline>'', ''3,5,5,5\<newline>'', ''*Element, type=COH3D8\<newline>'', ''1,1,2,3\<newline>'', ''*End\<newline>''] ! 3
       = format_int plain_builtins 2 @ '','' @ format_float plain_builtins ([0, 0, 0] ! 0)
         @ '','' @ format_float plain_builtins ([0, 0, 0] ! 1)
         @ '','' @ format_float plain_builtins ([0, 0, 0] ! 2) @ ''\<newline>''
   \<and> [''*Heading\<newline>'', ''*Node\<newline>'', ''1,0,0,0\<newline>'', ''2,0.0,0.0,0.0\<newline>'', ''3,5,5,5\<newline>'', ''*Element, type=COH3D8\<newline>'', ''1,1,2,3\<newline>'', ''*End\<newline>''] ! 3 = ''2,0.0,0.0,0.0\<newline>''"
proof -
  let ?h = "file_lines example_inp"
  let ?out = "[''*Heading\<newline>'', ''*Node\<newline>'', ''1,0,0,0\<newline>'', ''2,0.0,0.0,0.0\<newline>'', ''3,5,5,5\<newline>'', ''*Element, type=COH3D8\<newline>'', ''1,1,2,3\<newline>'', ''*End\<newline>'']"
  have run: "write_new_inp_file plain_builtins [2 \<mapsto> [0, 0, 0]] ?h [] = (?out, None)"
    by code_simp
  note three = write_new_inp_file_three_coords [OF run]
  have i3: "3 < length ?h" by code_simp
  have l3: "?h ! 3 = ''2,1,0,0,7\<newline>''" by code_simp
  have f3: "node_section_lines False ?h ! 3" by code_simp
  have n3: "py_int plain_builtins (hd (split_comma (?h ! 3))) = Some 2" by code_simp
  have a2: "[2 \<mapsto> [0, 0, 0 :: real]] (2 :: int) = Some [0, 0, 0]" by simp
  from three i3 f3 n3 a2
  have o3: "?out ! 3
       = format_int plain_builtins 2 @ '','' @ format_float plain_builtins ([0, 0, 0] ! 0)
         @ '','' @ format_float plain_builtins ([0, 0, 0] ! 1)
         @ '','' @ format_float plain_builtins ([0, 0, 0] ! 2) @ ''\<newline>''"
    by blast
  have v3: "?out ! 3 = ''2,0.0,0.0,0.0\<newline>''" by simp
  from run l3 f3 n3 a2 o3 v3 show ?thesis by blast
qed

section \<open>Properties of parsing and of the repair operation\<close>

text \<open>
  C8. The second pass does not stop at the first node section: at every \<^verbatim>\<open>*Node\<close> header
  the dict is replaced by the one read from the section that follows. So the node table
  handed to the clusterer is the one built from the last node section of the file: when
  parsing succeeds on a file whose last \<^verbatim>\<open>*Node\<close> header is followed by the lines \<open>sec\<close>,
  the table is the one \<^verbatim>\<open>read_node_coordinates\<close> returns on \<open>sec\<close>.
\<close>

theorem parse_old_inp_file_last_node_section:
  assumes "parse_old_inp_file B inp_el_key (pre @ ''*Node\<newline>'' # sec) = Inr (d, gs)"
    and "\<forall>l\<in>set sec. \<not> startswith l ''*Node\<newline>''"
  shows "\<exists>rest. read_node_coordinates B sec = Inr (d, rest)"
proof -
  have hdr: "startswith ''*Node\<newline>'' ''*Node\<newline>''" by (simp add: startswith_def)
  from assms(1) have "collect_nodes B Map.empty (pre @ ''*Node\<newline>'' # sec) = Inr d"
    by (auto simp add: parse_old_inp_file_def split: sum.splits)
  from collect_nodes_reaches_header [OF this hdr]
  obtain d1 where "collect_nodes B d1 (''*Node\<newline>'' # sec) = Inr d" by blast
  with hdr obtain d2 h' where
    rd: "read_node_coordinates B sec = Inr (d2, h')" and
    run: "collect_nodes B d2 h' = Inr d"
    by (auto split: sum.splits)
  from rd have "set h' \<subseteq> set sec"
    by (auto simp add: read_node_coordinates_def dest: read_node_loop_rest_subset)
  with assms(2) have "\<forall>l\<in>set h'. \<not> startswith l ''*Node\<newline>''" by blast
  from collect_nodes_no_header [OF this] run have "d2 = d" by simp
  with rd show ?thesis by blast
qed

theorem parse_old_inp_file_last_node_section_witness:
  "parse_old_inp_file plain_builtins ''*Element, type=COH3D''
     ([''*Node\<newline>'', ''1,0,0,0\<newline>''] @ ''*Node\<newline>'' # [''1,5,5,5\<newline>'', ''*End\<newline>''])
     = Inr ([1 \<mapsto> [5, 5, 5]], [])
   \<and> \<not> startswith ''1,5,5,5\<newline>'' ''*Node\<newline>''
   \<and> \<not> startswith ''*End\<newline>'' ''*Node\<newline>''
   \<and> file_lines example_two_sections
       = [''*Node\<newline>'', ''1,0,0,0\<newline>''] @ ''*Node\<newline>'' # [''1,5,5,5\<newline>'', ''*End\<newline>'']
   \<and> (\<exists>rest. read_node_coordinates plain_builtins [''1,5,5,5\<newline>'', ''*End\<newline>'']
         = Inr ([1 \<mapsto> [5, 5, 5]], rest))"
proof -
  have p: "parse_old_inp_file plain_builtins ''*Element, type=COH3D''
     ([''*Node\<newline>'', ''1,0,0,0\<newline>''] @ ''*Node\<newline>'' # [''1,5,5,5\<newline>'', ''*End\<newline>''])
     = Inr ([1 \<mapsto> [5, 5, 5]], [])"
    by (simp add: parse_old_inp_file_def read_node_coordinates_def
        startswith_def node_record_def rstrip_def is_space_def plain_builtins_def plain_int_def
        plain_float_def decimal_def digit_of_def)
  have s1: "\<not> startswith ''1,5,5,5\<newline>'' ''*Node\<newline>''"
    and s2: "\<not> startswith ''*End\<newline>'' ''*Node\<newline>''"
    by (simp_all add: startswith_def)
  have sec: "\<forall>l\<in>set [''1,5,5,5\<newline>'', ''*End\<newline>'']. \<not> startswith l ''*Node\<newline>''"
    using s1 s2 by simp
  have fl: "file_lines example_two_sections
       = [''*Node\<newline>'', ''1,0,0,0\<newline>''] @ ''*Node\<newline>'' # [''1,5,5,5\<newline>'', ''*End\<newline>'']"
    by code_simp
  from parse_old_inp_file_last_node_section [OF p sec] p s1 s2 fl show ?thesis by blast
qed

text \<open>
  Two node sections that give node 1 the coordinates \<open>(0,0,0)\<close> and then \<open>(5,5,5)\<close>: the
  table returned holds \<open>(5,5,5)\<close>, while the reader on the first section returns \<open>(0,0,0)\<close>.
\<close>

theorem parse_old_inp_file_two_node_sections:
  "parse_old_inp_file plain_builtins ''*Element, type=COH3D'' (file_lines example_two_sections)
     = Inr ([1 \<mapsto> [5, 5, 5]], [])
   \<and> file_lines example_two_sections
       = [''*Node\<newline>'', ''1,0,0,0\<newline>'', ''*Node\<newline>'', ''1,5,5,5\<newline>'', ''*End\<newline>'']
   \<and> read_node_coordinates plain_builtins [''1,0,0,0\<newline>'', ''*Node\<newline>'', ''1,5,5,5\<newline>'', ''*End\<newline>'']
       = Inr ([1 \<mapsto> [0, 0, 0]], [''*Node\<newline>'', ''1,5,5,5\<newline>'', ''*End\<newline>''])
   \<and> [1 \<mapsto> [5, 5, 5]] (1 :: int) \<noteq> [1 \<mapsto> [0, 0, 0 :: real]] 1"
  by (simp add: example_two_sections_def parse_old_inp_file_def read_node_coordinates_def
      startswith_def node_record_def rstrip_def is_space_def plain_builtins_def plain_int_def
      plain_float_def decimal_def digit_of_def)

text \<open>
  C9. The file ends inside a node section: after a \<^verbatim>\<open>*Node\<close> header no line starts with
  \<^verbatim>\<open>*\<close>. Then \<^verbatim>\<open>coord_snap\<close> fails and the new file is never opened. When the element
  keyword is one of the two, the first pass has returned its groups and every node record
  of the file is accepted by \<^verbatim>\<open>int\<close> and \<^verbatim>\<open>float\<close>, the failure is the exception raised
  by \<^verbatim>\<open>read_node_coordinates\<close> at the end of the input (the spec's MalformedSectionError).
\<close>

theorem coord_snap_truncated_node_section:
  assumes "file_lines old_inp_file = pre @ ''*Node\<newline>'' # body"
    and "\<forall>l\<in>set body. \<not> startswith l ''*''"
  shows "(\<exists>e. coord_snap B old_inp_file element_types tolerance = (Inl e, None))
       \<and> (\<forall>inp_el_key gs.
            element_key element_types = Inr inp_el_key \<longrightarrow>
            collect_groups B inp_el_key [] (file_lines old_inp_file) = Inr gs \<longrightarrow>
            node_records_parse B False (file_lines old_inp_file) \<longrightarrow>
            coord_snap B old_inp_file element_types tolerance
              = (Inl (Exception ''end of inp file''), None))"
proof -
  have hdr: "startswith ''*Node\<newline>'' ''*Node\<newline>''" by (simp add: startswith_def)
  from collect_nodes_truncated [OF assms(2) hdr, of B Map.empty pre]
  obtain e where e: "collect_nodes B Map.empty (file_lines old_inp_file) = Inl e"
    "node_records_parse B False (file_lines old_inp_file) \<longrightarrow> e = Exception ''end of inp file''"
    unfolding assms(1) by blast
  have fails: "\<exists>e. coord_snap B old_inp_file element_types tolerance = (Inl e, None)"
    using e(1) by (auto simp add: coord_snap_def parse_old_inp_file_def split: sum.splits)
  have exact: "\<forall>inp_el_key gs.
            element_key element_types = Inr inp_el_key \<longrightarrow>
            collect_groups B inp_el_key [] (file_lines old_inp_file) = Inr gs \<longrightarrow>
            node_records_parse B False (file_lines old_inp_file) \<longrightarrow>
            coord_snap B old_inp_file element_types tolerance
              = (Inl (Exception ''end of inp file''), None)"
    using e by (auto simp add: coord_snap_def parse_old_inp_file_def)
  from fails exact show ?thesis ..
qed

theorem coord_snap_truncated_node_section_witness:
  "file_lines example_truncated = [''*Heading\<newline>''] @ ''*Node\<newline>'' # [''1,0,0,0\<newline>'', ''2,1,0,0\<newline>'']
   \<and> \<not> startswith ''1,0,0,0\<newline>'' ''*'' \<and> \<not> startswith ''2,1,0,0\<newline>'' ''*''
   \<and> element_key ''cohesives'' = Inr ''*Element, type=COH3D''
   \<and> collect_groups plain_builtins ''*Element, type=COH3D'' [] (file_lines example_truncated) = Inr []
   \<and> node_records_parse plain_builtins False (file_lines example_truncated)
   \<and> coord_snap plain_builtins example_truncated ''cohesives'' (1 / 1000)
       = (Inl (Exception ''end of inp file''), None)"
proof -
  have fl: "file_lines example_truncated
      = [''*Heading\<newline>''] @ ''*Node\<newline>'' # [''1,0,0,0\<newline>'', ''2,1,0,0\<newline>'']"
    by code_simp
  have s1: "\<not> startswith ''1,0,0,0\<newline>'' ''*''" and s2: "\<not> startswith ''2,1,0,0\<newline>'' ''*''"
    by (simp_all add: startswith_def)
  have body: "\<forall>l\<in>set [''1,0,0,0\<newline>'', ''2,1,0,0\<newline>'']. \<not> startswith l ''*''"
    using s1 s2 by simp
  have key: "element_key ''cohesives'' = Inr ''*Element, type=COH3D''"
    by (simp add: element_key_def)
  have groups: "collect_groups plain_builtins ''*Element, type=COH3D'' []
      (file_lines example_truncated) = Inr []"
    by code_simp
  have recs: "node_records_parse plain_builtins False (file_lines example_truncated)"
    by code_simp
  from coord_snap_truncated_node_section
         [OF fl body, of plain_builtins "''cohesives''" "1 / 1000"] key groups recs
  have "coord_snap plain_builtins example_truncated ''cohesives'' (1 / 1000)
       = (Inl (Exception ''end of inp file''), None)"
    by blast
  with fl s1 s2 key groups recs show ?thesis by blast
qed

text \<open>
  C10. \<^verbatim>\<open>coord_snap\<close> ends with a bare \<^verbatim>\<open>return\<close>: on success the value returned is
  \<^verbatim>\<open>None\<close>, not a count. What a successful call has done: the keyword was one of the two,
  parsing and clustering succeeded, and the new file holds what the rewriter wrote for the
  changed-node dict of the clusterer. The number of substitutions is only logged by
  \<^verbatim>\<open>adjust_nodes\<close>. Otherwise the call fails.
\<close>

theorem coord_snap_returns_none:
  assumes "coord_snap B old_inp_file element_types tolerance = (Inr v, dest)"
  shows "v = PyNone
       \<and> (\<exists>inp_el_key node_coords groups adjusted st out.
            element_key element_types = Inr inp_el_key
          \<and> parse_old_inp_file B inp_el_key (file_lines old_inp_file) = Inr (node_coords, groups)
          \<and> adjust_nodes B node_coords groups tolerance = Inr (adjusted, st)
          \<and> write_new_inp_file B adjusted (file_lines old_inp_file) [] = (out, None)
          \<and> dest = Some (concat out))"
  using assms
  by (auto simp add: coord_snap_def split: sum.splits prod.splits option.splits)

theorem coord_snap_returns_none_witness:
  "coord_snap plain_builtins example_inp ''cohesives'' 2
     = (Inr PyNone, Some ''*Heading\<newline>*Node\<newline>1,0,0,0\<newline>2,0.0,0.0,0.0\<newline>3,5,5,5\<newline>*Element, type=COH3D8\<newline>1,1,2,3\<newline>*End\<newline>'')
   \<and> (\<exists>inp_el_key node_coords groups adjusted st out.
         element_key ''cohesives'' = Inr inp_el_key
       \<and> parse_old_inp_file plain_builtins inp_el_key (file_lines example_inp)
           = Inr (node_coords, groups)
       \<and> adjust_nodes plain_builtins node_coords groups 2 = Inr (adjusted, st)
       \<and> write_new_inp_file plain_builtins adjusted (file_lines example_inp) [] = (out, None)
       \<and> Some ''*Heading\<newline>*Node\<newline>1,0,0,0\<newline>2,0.0,0.0,0.0\<newline>3,5,5,5\<newline>*Element, type=COH3D8\<newline>1,1,2,3\<newline>*End\<newline>'' = Some (concat out))"
proof -
  have run: "coord_snap plain_builtins example_inp ''cohesives'' 2
     = (Inr PyNone, Some ''*Heading\<newline>*Node\<newline>1,0,0,0\<newline>2,0.0,0.0,0.0\<newline>3,5,5,5\<newline>*Element, type=COH3D8\<newline>1,1,2,3\<newline>*End\<newline>'')"
    by code_simp
  from coord_snap_returns_none [OF run] run show ?thesis by blast
qed

text \<open>
  A successful call in which the clusterer overwrites exactly one node: the value returned
  is \<^verbatim>\<open>None\<close>, not 1.
\<close>

theorem coord_snap_no_count:
  "coord_snap plain_builtins example_inp ''cohesives'' 2
     = (Inr PyNone, Some ''*Heading\<newline>*Node\<newline>1,0,0,0\<newline>2,0.0,0.0,0.0\<newline>3,5,5,5\<newline>*Element, type=COH3D8\<newline>1,1,2,3\<newline>*End\<newline>'')
   \<and> (case parse_old_inp_file plain_builtins ''*Element, type=COH3D'' (file_lines example_inp) of
         Inl e \<Rightarrow> False
       | Inr (node_coords, groups) \<Rightarrow>
           (case adjust_nodes plain_builtins node_coords groups 2 of
              Inl e \<Rightarrow> False
            | Inr (adjusted, st) \<Rightarrow> adjusted_nodes st = [2] \<and> substitutions st = 1))
   \<and> (Inr PyNone :: error + pyval) \<noteq> Inr (PyInt 1)"
proof -
  have run: "coord_snap plain_builtins example_inp ''cohesives'' 2
     = (Inr PyNone, Some ''*Heading\<newline>*Node\<newline>1,0,0,0\<newline>2,0.0,0.0,0.0\<newline>3,5,5,5\<newline>*Element, type=COH3D8\<newline>1,1,2,3\<newline>*End\<newline>'')"
    by code_simp
  have count: "case parse_old_inp_file plain_builtins ''*Element, type=COH3D'' (file_lines example_inp) of
         Inl e \<Rightarrow> False
       | Inr (node_coords, groups) \<Rightarrow>
           (case adjust_nodes plain_builtins node_coords groups 2 of
              Inl e \<Rightarrow> False
            | Inr (adjusted, st) \<Rightarrow> adjusted_nodes st = [2] \<and> substitutions st = 1)"
    by code_simp
  from run count show ?thesis by simp
qed

end
